theory Spec2Isabelle
  imports Complex_Main "HOL-Library.Word"
begin

unbundle bit_operations_syntax

section \<open>JavaScript strings and errors\<close>

text \<open>
  A JavaScript string is a sequence of UTF-16 code units; it is modelled as a list of
  natural numbers. String constants of the source are written \<open>js ''...''\<close>.
  Exceptions are values of \<open>js_error\<close>; a function that may throw returns
  \<open>js_error + 'a\<close> with \<open>Inl\<close> for the exception.
\<close>

type_synonym jsstring = "nat list"

abbreviation js :: "string \<Rightarrow> jsstring" where
  "js s \<equiv> map of_char s"

datatype js_error =
    TypeError
  | SyntaxError
  | InvalidCharacterError
  | Error jsstring

subsection \<open>UTF-8 encoding (TextEncoder)\<close>

definition is_high_surrogate :: "nat \<Rightarrow> bool" where
  "is_high_surrogate c = (0xD800 \<le> c \<and> c \<le> 0xDBFF)"

definition is_low_surrogate :: "nat \<Rightarrow> bool" where
  "is_low_surrogate c = (0xDC00 \<le> c \<and> c \<le> 0xDFFF)"

text \<open>Code units to scalar values: a surrogate pair is one code point, a lone
  surrogate becomes U+FFFD.\<close>

fun code_points :: "jsstring \<Rightarrow> nat list" where
  "code_points [] = []"
| "code_points [c] = (if is_high_surrogate c \<or> is_low_surrogate c then [0xFFFD] else [c])"
| "code_points (c # d # cs) =
     (if is_high_surrogate c then
        (if is_low_surrogate d
         then (0x10000 + (c - 0xD800) * 0x400 + (d - 0xDC00)) # code_points cs
         else 0xFFFD # code_points (d # cs))
      else if is_low_surrogate c then 0xFFFD # code_points (d # cs)
      else c # code_points (d # cs))"

definition utf8_bytes :: "nat \<Rightarrow> nat list" where
  "utf8_bytes cp =
     (if cp < 0x80 then [cp]
      else if cp < 0x800 then [0xC0 + cp div 64, 0x80 + cp mod 64]
      else if cp < 0x10000 then [0xE0 + cp div 4096, 0x80 + (cp div 64) mod 64, 0x80 + cp mod 64]
      else [0xF0 + (cp div 262144) mod 8, 0x80 + (cp div 4096) mod 64,
            0x80 + (cp div 64) mod 64, 0x80 + cp mod 64])"

definition TextEncoder_encode :: "jsstring \<Rightarrow> nat list" where
  "TextEncoder_encode s = concat (map utf8_bytes (code_points s))"

subsection \<open>String methods\<close>

text \<open>ECMAScript WhiteSpace and LineTerminator code points: what \<open>String.prototype.trim\<close>
  removes and what \<open>parseInt\<close> skips at the start.\<close>

definition is_white_space :: "nat \<Rightarrow> bool" where
  "is_white_space c =
     (c = 0x9 \<or> c = 0xA \<or> c = 0xB \<or> c = 0xC \<or> c = 0xD \<or> c = 0x20 \<or> c = 0xA0
      \<or> c = 0x1680 \<or> (0x2000 \<le> c \<and> c \<le> 0x200A) \<or> c = 0x2028 \<or> c = 0x2029
      \<or> c = 0x202F \<or> c = 0x205F \<or> c = 0x3000 \<or> c = 0xFEFF)"

definition is_line_terminator :: "nat \<Rightarrow> bool" where
  "is_line_terminator c = (c = 0xA \<or> c = 0xD \<or> c = 0x2028 \<or> c = 0x2029)"

definition trim :: "jsstring \<Rightarrow> jsstring" where
  "trim s = rev (dropWhile is_white_space (rev (dropWhile is_white_space s)))"

text \<open>\<open>s.split(sep)\<close> for a separator of one code unit: at least one piece.\<close>

fun split :: "nat \<Rightarrow> jsstring \<Rightarrow> jsstring list" where
  "split sep [] = [[]]"
| "split sep (c # cs) =
     (if c = sep then [] # split sep cs
      else (case split sep cs of [] \<Rightarrow> [[c]] | p # ps \<Rightarrow> (c # p) # ps))"

definition startsWith :: "jsstring \<Rightarrow> jsstring \<Rightarrow> bool" where
  "startsWith s p = (take (length p) s = p)"

definition endsWith :: "jsstring \<Rightarrow> jsstring \<Rightarrow> bool" where
  "endsWith s p = (length p \<le> length s \<and> drop (length s - length p) s = p)"

text \<open>\<open>s.includes(t)\<close>: \<open>t\<close> occurs in \<open>s\<close>.\<close>

fun string_includes :: "jsstring \<Rightarrow> jsstring \<Rightarrow> bool" where
  "string_includes [] t = (t = [])"
| "string_includes (c # cs) t = (startsWith (c # cs) t \<or> string_includes cs t)"

subsection \<open>Base64: btoa and atob\<close>

definition b64_char :: "nat \<Rightarrow> nat" where
  "b64_char n =
     (if n < 26 then 65 + n
      else if n < 52 then 97 + (n - 26)
      else if n < 62 then 48 + (n - 52)
      else if n = 62 then 43 else 47)"

fun b64_encode :: "nat list \<Rightarrow> jsstring" where
  "b64_encode [] = []"
| "b64_encode [a] = [b64_char (a div 4), b64_char ((a mod 4) * 16), 61, 61]"
| "b64_encode [a, b] =
     [b64_char (a div 4), b64_char ((a mod 4) * 16 + b div 16), b64_char ((b mod 16) * 4), 61]"
| "b64_encode (a # b # c # bs) =
     b64_char (a div 4) # b64_char ((a mod 4) * 16 + b div 16)
       # b64_char ((b mod 16) * 4 + c div 64) # b64_char (c mod 64) # b64_encode bs"

text \<open>\<open>btoa\<close> throws InvalidCharacterError on a code unit above U+00FF.\<close>

definition btoa :: "jsstring \<Rightarrow> js_error + jsstring" where
  "btoa s = (if \<forall>c \<in> set s. c < 256 then Inr (b64_encode s) else Inl InvalidCharacterError)"

definition is_b64_char :: "nat \<Rightarrow> bool" where
  "is_b64_char c =
     ((65 \<le> c \<and> c \<le> 90) \<or> (97 \<le> c \<and> c \<le> 122) \<or> (48 \<le> c \<and> c \<le> 57) \<or> c = 43 \<or> c = 47)"

definition b64_index :: "nat \<Rightarrow> nat" where
  "b64_index c =
     (if 65 \<le> c \<and> c \<le> 90 then c - 65
      else if 97 \<le> c \<and> c \<le> 122 then c - 97 + 26
      else if 48 \<le> c \<and> c \<le> 57 then c - 48 + 52
      else if c = 43 then 62 else 63)"

text \<open>Groups of four sextets give three bytes; of a last group of three or two sextets the
  surplus low bits are discarded.\<close>

fun b64_decode :: "nat list \<Rightarrow> nat list" where
  "b64_decode (a # b # c # d # xs) =
     (a * 4 + b div 16) # ((b mod 16) * 16 + c div 4) # ((c mod 4) * 64 + d) # b64_decode xs"
| "b64_decode [a, b, c] = [a * 4 + b div 16, (b mod 16) * 16 + c div 4]"
| "b64_decode [a, b] = [a * 4 + b div 16]"
| "b64_decode _ = []"

definition is_ascii_whitespace :: "nat \<Rightarrow> bool" where
  "is_ascii_whitespace c = (c = 0x9 \<or> c = 0xA \<or> c = 0xC \<or> c = 0xD \<or> c = 0x20)"

definition strip_padding :: "jsstring \<Rightarrow> jsstring" where
  "strip_padding d =
     (if length d mod 4 = 0 then
        (case rev d of
           x # y # r \<Rightarrow> if x = 61 then (if y = 61 then rev r else rev (y # r)) else d
         | _ \<Rightarrow> d)
      else d)"

text \<open>\<open>atob\<close> is the forgiving-base64 decode: ASCII whitespace is removed, one or two
  trailing \<open>=\<close> are removed when the length is a multiple of four, and a length of
  1 modulo 4 or any character outside the alphabet throws InvalidCharacterError.\<close>

definition atob :: "jsstring \<Rightarrow> js_error + jsstring" where
  "atob data =
     (let d = strip_padding (filter (\<lambda>c. \<not> is_ascii_whitespace c) data)
      in if length d mod 4 = 1 \<or> (\<exists>c \<in> set d. \<not> is_b64_char c)
         then Inl InvalidCharacterError
         else Inr (b64_decode (map b64_index d)))"

subsection \<open>Hexadecimal: Number.toString(16), parseInt(_, 16), Uint8Array\<close>

definition hex_digit :: "nat \<Rightarrow> nat" where
  "hex_digit n = (if n < 10 then 48 + n else 87 + n)"

definition HEX_digit :: "nat \<Rightarrow> nat" where
  "HEX_digit n = (if n < 10 then 48 + n else 55 + n)"

text \<open>\<open>b.toString(16).padStart(2, "0")\<close> of a byte.\<close>

definition hex_byte :: "nat \<Rightarrow> jsstring" where
  "hex_byte b = [hex_digit (b div 16), hex_digit (b mod 16)]"

definition is_hex_digit :: "nat \<Rightarrow> bool" where
  "is_hex_digit c = ((48 \<le> c \<and> c \<le> 57) \<or> (65 \<le> c \<and> c \<le> 70) \<or> (97 \<le> c \<and> c \<le> 102))"

definition hex_value :: "nat \<Rightarrow> nat" where
  "hex_value c = (if c \<le> 57 then c - 48 else if c \<le> 70 then c - 55 else c - 87)"

text \<open>\<open>parseInt(s, 16)\<close>: leading white space is skipped, then an optional sign and an
  optional \<open>0x\<close>, then the longest run of hexadecimal digits is read; \<open>None\<close> is NaN (no
  digit). The value is exact below \<open>2^53\<close>; the source parses at most two characters.\<close>

definition parseInt16 :: "jsstring \<Rightarrow> int option" where
  "parseInt16 s =
     (let s1 = dropWhile is_white_space s;
          sign = (case s1 of [] \<Rightarrow> 1 | c # _ \<Rightarrow> if c = 45 then - 1 else (1 :: int));
          s2 = (case s1 of [] \<Rightarrow> [] | c # r \<Rightarrow> if c = 45 \<or> c = 43 then r else s1);
          s3 = (case s2 of
                  a # b # r \<Rightarrow> if a = 48 \<and> (b = 120 \<or> b = 88) then r else s2
                | _ \<Rightarrow> s2);
          z = takeWhile is_hex_digit s3
      in if z = [] then None
         else Some (sign * int (foldl (\<lambda>acc c. acc * 16 + hex_value c) 0 z)))"

text \<open>Storing a number into a Uint8Array: NaN is 0, an integer is taken modulo 256.\<close>

definition ToUint8 :: "int option \<Rightarrow> nat" where
  "ToUint8 n = (case n of None \<Rightarrow> 0 | Some i \<Rightarrow> nat (i mod 256))"

text \<open>\<open>s.match(/.{1,2}/g)\<close>: the successive matches of one or two code units other than
  line terminators; the empty list stands for \<open>null\<close> (no match).\<close>

fun match_pairs :: "jsstring \<Rightarrow> jsstring list" where
  "match_pairs [] = []"
| "match_pairs [a] = (if is_line_terminator a then [] else [[a]])"
| "match_pairs (a # b # r) =
     (if is_line_terminator a then match_pairs (b # r)
      else if is_line_terminator b then [a] # match_pairs r
      else [a, b] # match_pairs r)"

section \<open>The platform's HMAC-SHA256 (crypto.subtle)\<close>

type_synonym u32 = "32 word"

definition rotr :: "nat \<Rightarrow> u32 \<Rightarrow> u32" where
  "rotr n x = (drop_bit n x) OR (push_bit (32 - n) x)"

definition Ch :: "u32 \<Rightarrow> u32 \<Rightarrow> u32 \<Rightarrow> u32" where
  "Ch x y z = (x AND y) XOR (NOT x AND z)"

definition Maj :: "u32 \<Rightarrow> u32 \<Rightarrow> u32 \<Rightarrow> u32" where
  "Maj x y z = (x AND y) XOR (x AND z) XOR (y AND z)"

definition Sigma0 :: "u32 \<Rightarrow> u32" where
  "Sigma0 x = rotr 2 x XOR rotr 13 x XOR rotr 22 x"

definition Sigma1 :: "u32 \<Rightarrow> u32" where
  "Sigma1 x = rotr 6 x XOR rotr 11 x XOR rotr 25 x"

definition sigma0 :: "u32 \<Rightarrow> u32" where
  "sigma0 x = rotr 7 x XOR rotr 18 x XOR drop_bit 3 x"

definition sigma1 :: "u32 \<Rightarrow> u32" where
  "sigma1 x = rotr 17 x XOR rotr 19 x XOR drop_bit 10 x"

text \<open>
  The constants of SHA-256 by their definition in the standard: the first 32 bits of the
  fractional parts of the cube roots of the first 64 primes (the round constants) and of
  the square roots of the first 8 primes (the initial hash value).
  \<open>root_search k n lo hi\<close> is the greatest \<open>r\<close> from \<open>lo\<close> below \<open>hi\<close> with \<open>r^k \<le> n\<close>.
\<close>

function root_search :: "nat \<Rightarrow> nat \<Rightarrow> nat \<Rightarrow> nat \<Rightarrow> nat" where
  "root_search k n lo hi =
     (if hi \<le> Suc lo then lo
      else if ((lo + hi) div 2) ^ k \<le> n then root_search k n ((lo + hi) div 2) hi
      else root_search k n lo ((lo + hi) div 2))"
  by pat_completeness auto
termination
  by (relation "measure (\<lambda>(k, n, lo, hi). hi - lo)") auto

declare root_search.simps [simp del]

definition root_fraction_bits :: "nat \<Rightarrow> nat \<Rightarrow> u32" where
  "root_fraction_bits k p = of_nat (root_search k (p * 2 ^ (32 * k)) 0 (p * 2 ^ 32 + 1) mod 2 ^ 32)"

definition is_prime :: "nat \<Rightarrow> bool" where
  "is_prime n = (1 < n \<and> (\<forall>d \<in> set [2..<n]. \<not> d dvd n))"

definition K256 :: "u32 list" where
  "K256 = map (root_fraction_bits 3) (filter is_prime [2..<312])"

definition H256 :: "u32 list" where
  "H256 = map (root_fraction_bits 2) (filter is_prime [2..<20])"

fun round256 :: "u32 list \<Rightarrow> u32 \<Rightarrow> u32 \<Rightarrow> u32 list" where
  "round256 [a, b, c, d, e, f, g, h] k w =
     (let t1 = h + Sigma1 e + Ch e f g + k + w; t2 = Sigma0 a + Maj a b c
      in [t1 + t2, a, b, c, d + t1, e, f, g])"
| "round256 s _ _ = s"

text \<open>The 64 rounds, one per round constant; \<open>ws\<close> holds the next sixteen words of the
  message schedule.\<close>

fun rounds :: "u32 list \<Rightarrow> u32 list \<Rightarrow> u32 list \<Rightarrow> u32 list" where
  "rounds [] s ws = s"
| "rounds (k # ks) s ws =
     rounds ks (round256 s k (ws ! 0))
       (tl ws @ [sigma1 (ws ! 14) + ws ! 9 + sigma0 (ws ! 1) + ws ! 0])"

definition compress :: "u32 list \<Rightarrow> u32 list \<Rightarrow> u32 list" where
  "compress hs m = map2 (+) hs (rounds K256 hs m)"

fun be32 :: "nat list \<Rightarrow> u32 list" where
  "be32 (a # b # c # d # bs) =
     (((of_nat a * 256 + of_nat b) * 256 + of_nat c) * 256 + of_nat d) # be32 bs"
| "be32 _ = []"

fun blocks :: "nat list \<Rightarrow> nat list list" where
  "blocks [] = []"
| "blocks (b # bs) = take 64 (b # bs) # blocks (drop 64 (b # bs))"

definition be_bytes8 :: "64 word \<Rightarrow> nat list" where
  "be_bytes8 n = map (\<lambda>i. unat (drop_bit i n AND 0xFF)) [56, 48, 40, 32, 24, 16, 8, 0]"

definition word_bytes :: "u32 \<Rightarrow> nat list" where
  "word_bytes w = map (\<lambda>i. unat (drop_bit i w AND 0xFF)) [24, 16, 8, 0]"

definition sha_pad :: "nat list \<Rightarrow> nat list" where
  "sha_pad bs =
     bs @ [0x80] @ replicate ((119 - length bs mod 64) mod 64) 0
        @ be_bytes8 (8 * of_nat (length bs))"

definition sha256 :: "nat list \<Rightarrow> nat list" where
  "sha256 bs = concat (map word_bytes (foldl compress H256 (map be32 (blocks (sha_pad bs)))))"

definition hmac_sha256 :: "nat list \<Rightarrow> nat list \<Rightarrow> nat list" where
  "hmac_sha256 key msg =
     (let k0 = (if length key > 64 then sha256 key else key);
          k = k0 @ replicate (64 - length k0) 0
      in sha256 (map (\<lambda>b. b XOR 0x5c) k @ sha256 (map (\<lambda>b. b XOR 0x36) k @ msg)))"

section \<open>JavaScript values and JSON\<close>

text \<open>
  A Number is an IEEE double. A finite double is kept exactly, as \<open>Finite m e\<close> for the
  value \<open>m * 2^e\<close>; the two zeros are not told apart (the source never divides by one).
\<close>

datatype jsnum = Finite int int | Infinite bool

datatype jsvalue =
    JUndefined
  | JNull
  | JBool bool
  | JNumber jsnum
  | JString jsstring
  | JArray "jsvalue list"
  | JObject "(jsstring \<times> jsvalue) list"

subsection \<open>Numbers: decimal literal to double, double to shortest decimal\<close>

fun bitlen :: "nat \<Rightarrow> nat" where
  "bitlen n = (if n = 0 then 0 else Suc (bitlen (n div 2)))"

fun declen :: "nat \<Rightarrow> nat" where
  "declen n = (if n = 0 then 0 else Suc (declen (n div 10)))"

declare bitlen.simps [simp del] declen.simps [simp del]

text \<open>\<open>floor (log b (num / den))\<close> for positive \<open>num\<close> and \<open>den\<close>, from the digit counts.\<close>

definition scale :: "nat \<Rightarrow> nat \<Rightarrow> int \<Rightarrow> nat \<times> nat" where
  "scale b den k = (if k \<ge> 0 then (den * b ^ nat k, 1) else (den, b ^ nat (- k)))"

definition floor_log :: "nat \<Rightarrow> (nat \<Rightarrow> nat) \<Rightarrow> nat \<Rightarrow> nat \<Rightarrow> int" where
  "floor_log b len num den =
     (let k0 = int (len num) - int (len den);
          (d, n) = scale b den k0
      in if num * n \<ge> d then k0 else k0 - 1)"

text \<open>The double nearest to \<open>D * 10^E\<close> (ties to even), with its sign.\<close>

definition round_double :: "bool \<Rightarrow> nat \<Rightarrow> int \<Rightarrow> jsnum" where
  "round_double neg D E =
     (if D = 0 then Finite 0 0
      else
        let num = (if E \<ge> 0 then D * 10 ^ nat E else D);
            den = (if E \<ge> 0 then 1 else 10 ^ nat (- E));
            e = max (floor_log 2 bitlen num den - 52) (- 1074);
            (d2, n2) = scale 2 den e;
            q = (num * n2) div d2;
            r = (num * n2) mod d2;
            m = (if 2 * r < d2 then q else if 2 * r > d2 then q + 1
                 else if even q then q else q + 1)
        in if e > 971 \<or> (e = 971 \<and> m \<ge> 2 ^ 53) then Infinite neg
           else Finite (if neg then - int m else int m) e)"

definition is_digit :: "nat \<Rightarrow> bool" where
  "is_digit c = (48 \<le> c \<and> c \<le> 57)"

definition dec_value :: "jsstring \<Rightarrow> nat" where
  "dec_value ds = foldl (\<lambda>acc c. acc * 10 + (c - 48)) 0 ds"

text \<open>A JSON number literal: \<open>-? (0 | [1-9][0-9]*) (. [0-9]+)? ([eE] [+-]? [0-9]+)?\<close>.\<close>

definition parse_number :: "jsstring \<Rightarrow> jsnum option" where
  "parse_number s =
     (let neg = (s \<noteq> [] \<and> hd s = 45);
          s1 = (if neg then tl s else s);
          ds = takeWhile is_digit s1;
          r1 = dropWhile is_digit s1;
          has_frac = (r1 \<noteq> [] \<and> hd r1 = 46);
          fs = (if has_frac then takeWhile is_digit (tl r1) else []);
          r2 = (if has_frac then dropWhile is_digit (tl r1) else r1);
          has_exp = (r2 \<noteq> [] \<and> (hd r2 = 101 \<or> hd r2 = 69));
          r3 = (if has_exp then tl r2 else r2);
          eneg = (has_exp \<and> r3 \<noteq> [] \<and> hd r3 = 45);
          r4 = (if has_exp \<and> r3 \<noteq> [] \<and> (hd r3 = 45 \<or> hd r3 = 43) then tl r3 else r3);
          es = (if has_exp then takeWhile is_digit r4 else []);
          r5 = (if has_exp then dropWhile is_digit r4 else r4)
      in if ds = [] \<or> (length ds > 1 \<and> hd ds = 48) \<or> (has_frac \<and> fs = [])
            \<or> (has_exp \<and> es = []) \<or> r5 \<noteq> []
         then None
         else Some (round_double neg (dec_value (ds @ fs))
                      ((if eneg then - int (dec_value es) else int (dec_value es))
                        - int (length fs))))"

fun dec_digits :: "nat \<Rightarrow> nat \<Rightarrow> jsstring" where
  "dec_digits 0 n = []"
| "dec_digits (Suc k) n = dec_digits k (n div 10) @ [48 + n mod 10]"

definition dec_string :: "nat \<Rightarrow> jsstring" where
  "dec_string n = (if n = 0 then [48] else dec_digits (declen n) n)"

definition dbl_eq :: "jsnum \<Rightarrow> jsnum \<Rightarrow> bool" where
  "dbl_eq x y =
     (case (x, y) of
        (Finite m1 e1, Finite m2 e2) \<Rightarrow>
          m1 * 2 ^ nat (e1 - min e1 e2) = m2 * 2 ^ nat (e2 - min e1 e2)
      | (Infinite a, Infinite b) \<Rightarrow> a = b
      | _ \<Rightarrow> False)"

text \<open>
  Number::toString takes the least \<open>k\<close> for which some \<open>s\<close> of \<open>k\<close> digits and some \<open>n\<close>
  have \<open>s * 10^(n - k)\<close> round to the double, and of two such \<open>s\<close> the nearer one.
  \<open>shortest_try m e k\<close> looks for \<open>(n, s)\<close> with \<open>k\<close> digits for the positive double
  \<open>m * 2^e\<close>.
\<close>

definition shortest_try :: "nat \<Rightarrow> int \<Rightarrow> nat \<Rightarrow> (int \<times> nat) option" where
  "shortest_try m e k =
     (let num = (if e \<ge> 0 then m * 2 ^ nat e else m);
          den = (if e \<ge> 0 then 1 else 2 ^ nat (- e));
          n = floor_log 10 declen num den + 1;
          (d10, n10) = scale 10 den (n - int k);
          lo = (num * n10) div d10;
          r = (num * n10) mod d10;
          lo_ok = dbl_eq (round_double False lo (n - int k)) (Finite (int m) e);
          hi_ok = dbl_eq (round_double False (lo + 1) (n - int k)) (Finite (int m) e);
          s = (if lo_ok \<and> hi_ok
               then (if 2 * r < d10 then lo else if 2 * r > d10 then lo + 1
                     else if even lo then lo else lo + 1)
               else if lo_ok then lo else lo + 1)
      in if lo_ok \<or> hi_ok
         then (if s = 10 ^ k then Some (n + 1, 10 ^ (k - 1)) else Some (n, s))
         else None)"

definition format_number :: "int \<Rightarrow> nat \<Rightarrow> jsstring" where
  "format_number n s =
     (let digits = dec_string s; k = int (length digits)
      in if k \<le> n \<and> n \<le> 21 then digits @ replicate (nat (n - k)) 48
         else if 0 < n \<and> n \<le> 21 then take (nat n) digits @ [46] @ drop (nat n) digits
         else if - 6 < n \<and> n \<le> 0 then [48, 46] @ replicate (nat (- n)) 48 @ digits
         else (if k = 1 then digits else hd digits # 46 # tl digits)
              @ [101, if n - 1 < 0 then 45 else 43] @ dec_string (nat \<bar>n - 1\<bar>))"

definition Number_toString :: "jsnum \<Rightarrow> jsstring" where
  "Number_toString x =
     (case x of
        Infinite neg \<Rightarrow> (if neg then js ''-Infinity'' else js ''Infinity'')
      | Finite m e \<Rightarrow>
          if m = 0 then js ''0''
          else (if m < 0 then js ''-'' else [])
               @ (case List.map_filter (shortest_try (nat \<bar>m\<bar>) e)
                         [1, 2, 3, 4, 5, 6, 7, 8, 9, 10, 11, 12, 13, 14, 15, 16, 17] of
                    [] \<Rightarrow> []
                  | (n, s) # _ \<Rightarrow> format_number n s))"

subsection \<open>JSON.parse\<close>

datatype token =
    T_LBracket | T_RBracket | T_LBrace | T_RBrace | T_Comma | T_Colon
  | T_Value jsvalue

definition is_json_whitespace :: "nat \<Rightarrow> bool" where
  "is_json_whitespace c = (c = 0x9 \<or> c = 0xA \<or> c = 0xD \<or> c = 0x20)"

definition unescape :: "nat \<Rightarrow> nat option" where
  "unescape e =
     (if e = 0x22 \<or> e = 0x5C \<or> e = 0x2F then Some e
      else if e = 0x62 then Some 0x8
      else if e = 0x66 then Some 0xC
      else if e = 0x6E then Some 0xA
      else if e = 0x72 then Some 0xD
      else if e = 0x74 then Some 0x9
      else None)"

definition hex4_value :: "nat \<Rightarrow> nat \<Rightarrow> nat \<Rightarrow> nat \<Rightarrow> nat" where
  "hex4_value h1 h2 h3 h4 =
     ((hex_value h1 * 16 + hex_value h2) * 16 + hex_value h3) * 16 + hex_value h4"

text \<open>The rest of a string literal after its opening quote: the string read (collected in
  \<open>acc\<close>, reversed) and the input after the closing quote.\<close>

fun lex_string :: "jsstring \<Rightarrow> jsstring \<Rightarrow> (jsstring \<times> jsstring) option" where
  "lex_string acc [] = None"
| "lex_string acc (c # cs) =
     (if c = 0x22 then Some (rev acc, cs)
      else if c = 0x5C then
        (case cs of
           [] \<Rightarrow> None
         | e # r \<Rightarrow>
             if e = 0x75 then
               (case r of
                  h1 # h2 # h3 # h4 # r' \<Rightarrow>
                    if is_hex_digit h1 \<and> is_hex_digit h2 \<and> is_hex_digit h3 \<and> is_hex_digit h4
                    then lex_string (hex4_value h1 h2 h3 h4 # acc) r'
                    else None
                | _ \<Rightarrow> None)
             else (case unescape e of None \<Rightarrow> None | Some x \<Rightarrow> lex_string (x # acc) r))
      else if c < 0x20 then None
      else lex_string (c # acc) cs)"

definition is_number_char :: "nat \<Rightarrow> bool" where
  "is_number_char c = (is_digit c \<or> c = 45 \<or> c = 43 \<or> c = 46 \<or> c = 101 \<or> c = 69)"

lemma lex_string_shorter:
  "lex_string acc cs = Some (s, rest) \<Longrightarrow> length rest < Suc (length cs)"
proof (induction cs arbitrary: acc rule: length_induct)
  case (1 cs)
  have IH: "\<And>acc' ys. lex_string acc' ys = Some (s, rest) \<Longrightarrow> length ys < length cs
              \<Longrightarrow> length rest \<le> length ys"
    using "1.IH" by (auto simp: less_Suc_eq_le)
  show ?case
  proof (cases cs)
    case Nil
    with "1.prems" show ?thesis by simp
  next
    case (Cons c cs')
    show ?thesis
    proof (cases "c = 0x22")
      case True
      with "1.prems" Cons show ?thesis by simp
    next
      case quote: False
      show ?thesis
      proof (cases "c = 0x5C")
        case False
        with quote "1.prems" Cons have "lex_string (c # acc) cs' = Some (s, rest)"
          by (simp split: if_splits)
        from IH [OF this] Cons show ?thesis by simp
      next
        case True
        with "1.prems" Cons obtain e r where cs': "cs' = e # r"
          by (cases cs') auto
        show ?thesis
        proof (cases "e = 0x75")
          case False
          with True "1.prems" Cons cs' obtain x where "lex_string (x # acc) r = Some (s, rest)"
            by (auto split: option.splits)
          from IH [OF this] Cons cs' show ?thesis by simp
        next
          case u: True
          with True "1.prems" Cons cs' obtain h1 h2 h3 h4 r' where
            r: "r = h1 # h2 # h3 # h4 # r'"
            and "lex_string (hex4_value h1 h2 h3 h4 # acc) r' = Some (s, rest)"
            by (auto split: list.splits if_splits)
          from IH [OF this(2)] Cons cs' r show ?thesis by simp
        qed
      qed
    qed
  qed
qed

text \<open>The tokens of a JSON text. A number is the longest run of the characters that occur in
  numbers, which must be a number literal; \<open>None\<close> is the SyntaxError.\<close>

function tokenize :: "jsstring \<Rightarrow> token list option" where
  "tokenize [] = Some []"
| "tokenize (c # cs) =
     (if is_json_whitespace c then tokenize cs
      else if c = 0x5B then map_option (Cons T_LBracket) (tokenize cs)
      else if c = 0x5D then map_option (Cons T_RBracket) (tokenize cs)
      else if c = 0x7B then map_option (Cons T_LBrace) (tokenize cs)
      else if c = 0x7D then map_option (Cons T_RBrace) (tokenize cs)
      else if c = 0x2C then map_option (Cons T_Comma) (tokenize cs)
      else if c = 0x3A then map_option (Cons T_Colon) (tokenize cs)
      else if c = 0x22 then
        (case lex_string [] cs of
           None \<Rightarrow> None
         | Some (s, rest) \<Rightarrow> map_option (Cons (T_Value (JString s))) (tokenize rest))
      else if take 4 (c # cs) = js ''true'' then
        map_option (Cons (T_Value (JBool True))) (tokenize (drop 3 cs))
      else if take 5 (c # cs) = js ''false'' then
        map_option (Cons (T_Value (JBool False))) (tokenize (drop 4 cs))
      else if take 4 (c # cs) = js ''null'' then
        map_option (Cons (T_Value JNull)) (tokenize (drop 3 cs))
      else if c = 45 \<or> is_digit c then
        (case parse_number (takeWhile is_number_char (c # cs)) of
           None \<Rightarrow> None
         | Some x \<Rightarrow> map_option (Cons (T_Value (JNumber x)))
                       (tokenize (dropWhile is_number_char cs)))
      else None)"
  by pat_completeness auto
termination
proof (relation "measure length", goal_cases)
  case (9 c cs x2 s rest)
  then show ?case using lex_string_shorter [of "[]" cs s rest] by simp
next
  case (13 c cs x2)
  then show ?case by (simp add: length_dropWhile_le less_Suc_eq_le)
qed simp_all

text \<open>Own properties of an object in the order of enumeration: array indices ascending,
  then the other names in the order of creation.\<close>

definition is_array_index :: "jsstring \<Rightarrow> bool" where
  "is_array_index k =
     (k \<noteq> [] \<and> (\<forall>c \<in> set k. is_digit c) \<and> (k = [48] \<or> hd k \<noteq> 48)
      \<and> dec_value k \<le> 4294967294)"

fun insert_index :: "jsstring \<Rightarrow> jsvalue \<Rightarrow> (jsstring \<times> jsvalue) list \<Rightarrow> (jsstring \<times> jsvalue) list" where
  "insert_index k v [] = [(k, v)]"
| "insert_index k v ((k', v') # ps) =
     (if is_array_index k' \<and> dec_value k' < dec_value k
      then (k', v') # insert_index k v ps
      else (k, v) # (k', v') # ps)"

definition define_property :: "(jsstring \<times> jsvalue) list \<Rightarrow> jsstring \<times> jsvalue \<Rightarrow> (jsstring \<times> jsvalue) list" where
  "define_property ps kv =
     (if map_of ps (fst kv) \<noteq> None
      then map (\<lambda>p. if fst p = fst kv then kv else p) ps
      else if is_array_index (fst kv) then insert_index (fst kv) (snd kv) ps
      else ps @ [kv])"

text \<open>The parser runs over the tokens with a stack of the arrays and objects that are
  open: an array with its elements so far, an object with its members so far and the
  name whose value is awaited (both lists newest first).\<close>

datatype frame =
    ArrayFrame "jsvalue list"
  | ObjectFrame "(jsstring \<times> jsvalue) list" "jsstring option"

datatype expect =
    ExpValue | ExpValueOrClose | ExpNameOrClose | ExpName | ExpColon | ExpCommaOrClose
  | Finished jsvalue

fun deliver :: "jsvalue \<Rightarrow> frame list \<Rightarrow> (expect \<times> frame list) option" where
  "deliver v [] = Some (Finished v, [])"
| "deliver v (ArrayFrame vs # st) = Some (ExpCommaOrClose, ArrayFrame (v # vs) # st)"
| "deliver v (ObjectFrame ms (Some k) # st) = Some (ExpCommaOrClose, ObjectFrame ((k, v) # ms) None # st)"
| "deliver v (ObjectFrame ms None # st) = None"

fun begin_value :: "token \<Rightarrow> frame list \<Rightarrow> (expect \<times> frame list) option" where
  "begin_value (T_Value v) st = deliver v st"
| "begin_value T_LBracket st = Some (ExpValueOrClose, ArrayFrame [] # st)"
| "begin_value T_LBrace st = Some (ExpNameOrClose, ObjectFrame [] None # st)"
| "begin_value _ st = None"

fun begin_name :: "token \<Rightarrow> frame list \<Rightarrow> (expect \<times> frame list) option" where
  "begin_name (T_Value (JString k)) (ObjectFrame ms None # st) =
     Some (ExpColon, ObjectFrame ms (Some k) # st)"
| "begin_name _ _ = None"

fun parse_step :: "expect \<Rightarrow> frame list \<Rightarrow> token \<Rightarrow> (expect \<times> frame list) option" where
  "parse_step ExpValue st t = begin_value t st"
| "parse_step ExpValueOrClose st t =
     (case (t, st) of
        (T_RBracket, ArrayFrame vs # st') \<Rightarrow> deliver (JArray (rev vs)) st'
      | _ \<Rightarrow> begin_value t st)"
| "parse_step ExpNameOrClose st t =
     (case (t, st) of
        (T_RBrace, ObjectFrame ms None # st') \<Rightarrow>
          deliver (JObject (foldl define_property [] (rev ms))) st'
      | _ \<Rightarrow> begin_name t st)"
| "parse_step ExpName st t = begin_name t st"
| "parse_step ExpColon st t = (case t of T_Colon \<Rightarrow> Some (ExpValue, st) | _ \<Rightarrow> None)"
| "parse_step ExpCommaOrClose st t =
     (case (t, st) of
        (T_Comma, ArrayFrame vs # st') \<Rightarrow> Some (ExpValue, st)
      | (T_Comma, ObjectFrame ms None # st') \<Rightarrow> Some (ExpName, st)
      | (T_RBracket, ArrayFrame vs # st') \<Rightarrow> deliver (JArray (rev vs)) st'
      | (T_RBrace, ObjectFrame ms None # st') \<Rightarrow>
          deliver (JObject (foldl define_property [] (rev ms))) st'
      | _ \<Rightarrow> None)"
| "parse_step (Finished v) st t = None"

fun parse_tokens :: "expect \<Rightarrow> frame list \<Rightarrow> token list \<Rightarrow> jsvalue option" where
  "parse_tokens ex st [] = (case ex of Finished v \<Rightarrow> Some v | _ \<Rightarrow> None)"
| "parse_tokens ex st (t # ts) =
     (case parse_step ex st t of
        None \<Rightarrow> None
      | Some (ex', st') \<Rightarrow> parse_tokens ex' st' ts)"

text \<open>\<open>JSON.parse(text)\<close>; \<open>None\<close> is its SyntaxError.\<close>

definition JSON_parse :: "jsstring \<Rightarrow> jsvalue option" where
  "JSON_parse text = (case tokenize text of None \<Rightarrow> None | Some ts \<Rightarrow> parse_tokens ExpValue [] ts)"

subsection \<open>JSON.stringify\<close>

definition hex4 :: "nat \<Rightarrow> jsstring" where
  "hex4 c = [hex_digit (c div 4096 mod 16), hex_digit (c div 256 mod 16),
             hex_digit (c div 16 mod 16), hex_digit (c mod 16)]"

definition json_escape :: "nat \<Rightarrow> jsstring" where
  "json_escape c =
     (if c = 0x8 then [0x5C, 0x62]
      else if c = 0x9 then [0x5C, 0x74]
      else if c = 0xA then [0x5C, 0x6E]
      else if c = 0xC then [0x5C, 0x66]
      else if c = 0xD then [0x5C, 0x72]
      else if c = 0x22 then [0x5C, 0x22]
      else if c = 0x5C then [0x5C, 0x5C]
      else if c < 0x20 \<or> is_high_surrogate c \<or> is_low_surrogate c then [0x5C, 0x75] @ hex4 c
      else [c])"

text \<open>QuoteJSONString without the quotes: a surrogate pair is kept, a lone surrogate is
  escaped.\<close>

fun quote_units :: "jsstring \<Rightarrow> jsstring" where
  "quote_units [] = []"
| "quote_units [c] = json_escape c"
| "quote_units (c # d # cs) =
     (if is_high_surrogate c \<and> is_low_surrogate d then c # d # quote_units cs
      else json_escape c @ quote_units (d # cs))"

definition QuoteJSONString :: "jsstring \<Rightarrow> jsstring" where
  "QuoteJSONString s = [0x22] @ quote_units s @ [0x22]"

fun join :: "jsstring \<Rightarrow> jsstring list \<Rightarrow> jsstring" where
  "join sep [] = []"
| "join sep [x] = x"
| "join sep (x # y # xs) = x @ sep @ join sep (y # xs)"

text \<open>\<open>JSON.stringify(v)\<close> of a value other than \<open>undefined\<close>, without replacer and
  indentation. In an array \<open>undefined\<close> is written \<open>null\<close>, in an object a member whose value
  is \<open>undefined\<close> is left out, a Number that is not finite is written \<open>null\<close>.\<close>

fun JSON_stringify :: "jsvalue \<Rightarrow> jsstring" where
  "JSON_stringify JUndefined = js ''null''"
| "JSON_stringify JNull = js ''null''"
| "JSON_stringify (JBool b) = (if b then js ''true'' else js ''false'')"
| "JSON_stringify (JNumber x) =
     (case x of Infinite _ \<Rightarrow> js ''null'' | Finite _ _ \<Rightarrow> Number_toString x)"
| "JSON_stringify (JString s) = QuoteJSONString s"
| "JSON_stringify (JArray vs) = js ''['' @ join (js '','') (map JSON_stringify vs) @ js '']''"
| "JSON_stringify (JObject ps) =
     js ''{'' @ join (js '','')
        (map (\<lambda>p. QuoteJSONString (fst p) @ js '':'' @ JSON_stringify (snd p))
           (filter (\<lambda>p. snd p \<noteq> JUndefined) ps)) @ js ''}''"

subsection \<open>Truthiness and property access\<close>

fun truthy :: "jsvalue \<Rightarrow> bool" where
  "truthy JUndefined = False"
| "truthy JNull = False"
| "truthy (JBool b) = b"
| "truthy (JNumber x) = (case x of Finite m _ \<Rightarrow> m \<noteq> 0 | Infinite _ \<Rightarrow> True)"
| "truthy (JString s) = (s \<noteq> [])"
| "truthy (JArray _) = True"
| "truthy (JObject _) = True"

text \<open>\<open>v.name\<close> for a property name that no built-in prototype defines (all names the
  source reads are such): a TypeError on \<open>undefined\<close> and \<open>null\<close>, the own property of an
  object, \<open>undefined\<close> otherwise.\<close>

fun get_property :: "jsvalue \<Rightarrow> jsstring \<Rightarrow> js_error + jsvalue" where
  "get_property JUndefined name = Inl TypeError"
| "get_property JNull name = Inl TypeError"
| "get_property (JObject ps) name = Inr (case map_of ps name of None \<Rightarrow> JUndefined | Some v \<Rightarrow> v)"
| "get_property _ name = Inr JUndefined"

section \<open>tools/index.ts: signed cookie of approved clients, approval dialog\<close>

definition COOKIE_NAME :: jsstring where
  "COOKIE_NAME = js ''mcp-approved-clients''"

definition ONE_YEAR_IN_SECONDS :: nat where
  "ONE_YEAR_IN_SECONDS = 31536000"

text \<open>A raw HMAC key is the UTF-8 encoding of the secret; an empty secret throws.\<close>

definition importKey :: "jsstring \<Rightarrow> js_error + nat list" where
  "importKey secret =
     (if secret = []
      then Inl (Error (js ''Cookie encryption key is not defined. A secret key is required for signing cookies.''))
      else Inr (TextEncoder_encode secret))"

definition signData :: "nat list \<Rightarrow> jsstring \<Rightarrow> jsstring" where
  "signData key data = concat (map hex_byte (hmac_sha256 key (TextEncoder_encode data)))"

text \<open>Without a match \<open>signatureHex.match(..)\<close> is \<open>null\<close> and the TypeError of \<open>null.map\<close> is
  caught: \<open>false\<close>. Otherwise \<open>crypto.subtle.verify\<close> compares the bytes with the MAC.\<close>

definition verifySignature :: "nat list \<Rightarrow> jsstring \<Rightarrow> jsstring \<Rightarrow> bool" where
  "verifySignature key signatureHex data =
     (case match_pairs signatureHex of
        [] \<Rightarrow> False
      | p # ps \<Rightarrow>
          map (\<lambda>byte. ToUint8 (parseInt16 byte)) (p # ps)
            = hmac_sha256 key (TextEncoder_encode data))"

fun string_items :: "jsvalue list \<Rightarrow> jsstring list option" where
  "string_items [] = Some []"
| "string_items (JString s # vs) = map_option (Cons s) (string_items vs)"
| "string_items (_ # vs) = None"

definition getApprovedClientsFromCookie ::
  "jsstring option \<Rightarrow> jsstring \<Rightarrow> js_error + jsstring list option" where
  "getApprovedClientsFromCookie cookieHeader secret =
     (case cookieHeader of
        None \<Rightarrow> Inr None
      | Some header \<Rightarrow>
          if header = [] then Inr None
          else
            (case find (\<lambda>c. startsWith c (COOKIE_NAME @ js ''='')) (map trim (split 0x3B header)) of
               None \<Rightarrow> Inr None
             | Some targetCookie \<Rightarrow>
                 (case split 0x2E (drop (length COOKIE_NAME + 1) targetCookie) of
                    [signatureHex, base64Payload] \<Rightarrow>
                      (case atob base64Payload of
                         Inl e \<Rightarrow> Inl e
                       | Inr payload \<Rightarrow>
                           (case importKey secret of
                              Inl e \<Rightarrow> Inl e
                            | Inr key \<Rightarrow>
                                if \<not> verifySignature key signatureHex payload then Inr None
                                else
                                  (case JSON_parse payload of
                                     None \<Rightarrow> Inr None
                                   | Some (JArray approvedClients) \<Rightarrow>
                                       Inr (string_items approvedClients)
                                   | Some _ \<Rightarrow> Inr None)))
                  | _ \<Rightarrow> Inr None)))"

text \<open>Of a request: its URL, the value of the \<open>Cookie\<close> header (\<open>None\<close> when there is
  none) and what \<open>request.formData()\<close> gives, the entries of the form or the TypeError of
  a body that is not a form.\<close>

datatype form_entry = FormString jsstring | FormFile

record request =
  req_url :: jsstring
  req_cookie :: "jsstring option"
  req_formData :: "js_error + (jsstring \<times> form_entry) list"

definition clientIdAlreadyApproved :: "request \<Rightarrow> jsstring \<Rightarrow> jsstring \<Rightarrow> js_error + bool" where
  "clientIdAlreadyApproved request clientId cookieSecret =
     (if clientId = [] then Inr False
      else
        (case getApprovedClientsFromCookie (req_cookie request) cookieSecret of
           Inl e \<Rightarrow> Inl e
         | Inr None \<Rightarrow> Inr False
         | Inr (Some approvedClients) \<Rightarrow> Inr (clientId \<in> set approvedClients)))"

record response =
  r_status :: nat
  r_body :: jsstring
  r_headers :: "(jsstring \<times> jsstring) list"

record ClientInfo =
  client_name :: "jsstring option"

record server_info =
  server_name :: jsstring
  server_logo :: "jsstring option"
  server_description :: "jsstring option"

record ApprovalDialogOptions =
  opt_client :: ClientInfo
  opt_server :: server_info
  opt_state :: jsvalue

text \<open>\<open>${x}\<close> of a string that may be \<open>undefined\<close>, and \<open>x || d\<close>.\<close>

definition interpolate :: "jsstring option \<Rightarrow> jsstring" where
  "interpolate x = (case x of None \<Rightarrow> js ''undefined'' | Some s \<Rightarrow> s)"

definition or_default :: "jsstring option \<Rightarrow> jsstring \<Rightarrow> jsstring" where
  "or_default x d = (case x of None \<Rightarrow> d | Some s \<Rightarrow> if s = [] then d else s)"

text \<open>The fixed text of the dialog between its interpolations.\<close>

definition dialog_html_0 :: jsstring where
  \<open>dialog_html_0 = join [10]
     [[],
      js ''<!DOCTYPE html>'',
      js ''<html lang="en">'',
      js ''<head>'',
      js ''    <meta charset="UTF-8">'',
      js ''    <meta name="viewport" content="width=device-width, initial-scale=1.0">'',
      js ''    <title>Authorize '']\<close>

definition dialog_html_1 :: jsstring where
  \<open>dialog_html_1 = join [10]
     [js ''</title>'',
      js ''    <style>'',
      js ''        body {'',
      js ''            font-family: -apple-system, BlinkMacSystemFont, '' @ [39] @ js ''Segoe UI'' @ [39] @ js '', Roboto, sans-serif;'',
      js ''            margin: 0;'',
      js ''            padding: 20px;'',
      js ''            background-color: #f5f5f5;'',
      js ''            display: flex;'',
      js ''            justify-content: center;'',
      js ''            align-items: center;'',
      js ''            min-height: 100vh;'',
      js ''        }'',
      js ''        .container {'',
      js ''            background: white;'',
      js ''            border-radius: 12px;'',
      js ''            padding: 32px;'',
      js ''            max-width: 400px;'',
      js ''            width: 100%;'',
      js ''            box-shadow: 0 4px 12px rgba(0, 0, 0, 0.1);'',
      js ''        }'',
      js ''        .server-info {'',
      js ''            text-align: center;'',
      js ''            margin-bottom: 24px;'',
      js ''        }'',
      js ''        .server-logo {'',
      js ''            width: 64px;'',
      js ''            height: 64px;'',
      js ''            border-radius: 12px;'',
      js ''            margin-bottom: 16px;'',
      js ''        }'',
      js ''        .server-name {'',
      js ''            font-size: 20px;'',
      js ''            font-weight: 600;'',
      js ''            margin-bottom: 8px;'',
      js ''            color: #1a1a1a;'',
      js ''        }'',
      js ''        .server-description {'',
      js ''            color: #666;'',
      js ''            font-size: 14px;'',
      js ''            line-height: 1.4;'',
      js ''        }'',
      js ''        .client-info {'',
      js ''            border: 1px solid #e5e5e5;'',
      js ''            border-radius: 8px;'',
      js ''            padding: 16px;'',
      js ''            margin-bottom: 24px;'',
      js ''        }'',
      js ''        .client-name {'',
      js ''            font-weight: 600;'',
      js ''            margin-bottom: 4px;'',
      js ''            color: #1a1a1a;'',
      js ''        }'',
      js ''        .client-description {'',
      js ''            color: #666;'',
      js ''            font-size: 14px;'',
      js ''        }'',
      js ''        .permissions {'',
      js ''            margin-bottom: 24px;'',
      js ''        }'',
      js ''        .permissions-title {'',
      js ''            font-weight: 600;'',
      js ''            margin-bottom: 12px;'',
      js ''            color: #1a1a1a;'',
      js ''        }'',
      js ''        .permission-item {'',
      js ''            display: flex;'',
      js ''            align-items: center;'',
      js ''            margin-bottom: 8px;'',
      js ''            color: #666;'',
      js ''            font-size: 14px;'',
      js ''        }'',
      js ''        .permission-icon {'',
      js ''            width: 16px;'',
      js ''            height: 16px;'',
      js ''            margin-right: 8px;'',
      js ''            color: #22c55e;'',
      js ''        }'',
      js ''        .buttons {'',
      js ''            display: flex;'',
      js ''            gap: 12px;'',
      js ''        }'',
      js ''        .button {'',
      js ''            flex: 1;'',
      js ''            padding: 12px 16px;'',
      js ''            border: none;'',
      js ''            border-radius: 8px;'',
      js ''            font-weight: 600;'',
      js ''            cursor: pointer;'',
      js ''            font-size: 14px;'',
      js ''            transition: all 0.2s;'',
      js ''        }'',
      js ''        .button-primary {'',
      js ''            background-color: #2563eb;'',
      js ''            color: white;'',
      js ''        }'',
      js ''        .button-primary:hover {'',
      js ''            background-color: #1d4ed8;'',
      js ''        }'',
      js ''        .button-secondary {'',
      js ''            background-color: #f3f4f6;'',
      js ''            color: #374151;'',
      js ''        }'',
      js ''        .button-secondary:hover {'',
      js ''            background-color: #e5e7eb;'',
      js ''        }'',
      js ''    </style>'',
      js ''</head>'',
      js ''<body>'',
      js ''    <div class="container">'',
      js ''        <div class="server-info">'',
      js ''            <img src="'']\<close>

definition dialog_html_2 :: jsstring where
  \<open>dialog_html_2 = join [10]
     [js ''" alt="'']\<close>

definition dialog_html_3 :: jsstring where
  \<open>dialog_html_3 = join [10]
     [js '' Logo" class="server-logo">'',
      js ''            <div class="server-name">'']\<close>

definition dialog_html_4 :: jsstring where
  \<open>dialog_html_4 = join [10]
     [js ''</div>'',
      js ''            <div class="server-description">'']\<close>

definition dialog_html_5 :: jsstring where
  \<open>dialog_html_5 = join [10]
     [js ''</div>'',
      js ''        </div>'',
      js ''        '',
      js ''        <div class="client-info">'',
      js ''            <div class="client-name">'']\<close>

definition dialog_html_6 :: jsstring where
  \<open>dialog_html_6 = join [10]
     [js ''</div>'',
      js ''            <div class="client-description">wants to access your '']\<close>

definition dialog_html_7 :: jsstring where
  \<open>dialog_html_7 = join [10]
     [js '' data</div>'',
      js ''        </div>'',
      js ''        '',
      js ''        <div class="permissions">'',
      js ''            <div class="permissions-title">This will allow the application to:</div>'',
      js ''            <div class="permission-item">'',
      js ''                <svg class="permission-icon" fill="currentColor" viewBox="0 0 20 20">'',
      js ''                    <path fill-rule="evenodd" d="M16.707 5.293a1 1 0 010 1.414l-8 8a1 1 0 01-1.414 0l-4-4a1 1 0 011.414-1.414L8 12.586l7.293-7.293a1 1 0 011.414 0z" clip-rule="evenodd"></path>'',
      js ''                </svg>'',
      js ''                Read and write pages and databases'',
      js ''            </div>'',
      js ''            <div class="permission-item">'',
      js ''                <svg class="permission-icon" fill="currentColor" viewBox="0 0 20 20">'',
      js ''                    <path fill-rule="evenodd" d="M16.707 5.293a1 1 0 010 1.414l-8 8a1 1 0 01-1.414 0l-4-4a1 1 0 011.414-1.414L8 12.586l7.293-7.293a1 1 0 011.414 0z" clip-rule="evenodd"></path>'',
      js ''                </svg>'',
      js ''                Access workspace information'',
      js ''            </div>'',
      js ''            <div class="permission-item">'',
      js ''                <svg class="permission-icon" fill="currentColor" viewBox="0 0 20 20">'',
      js ''                    <path fill-rule="evenodd" d="M16.707 5.293a1 1 0 010 1.414l-8 8a1 1 0 01-1.414 0l-4-4a1 1 0 011.414-1.414L8 12.586l7.293-7.293a1 1 0 011.414 0z" clip-rule="evenodd"></path>'',
      js ''                </svg>'',
      js ''                Search content'',
      js ''            </div>'',
      js ''        </div>'',
      js ''        '',
      js ''        <form method="POST" class="buttons">'',
      js ''            <input type="hidden" name="state" value='' @ [39]]\<close>

definition dialog_html_8 :: jsstring where
  \<open>dialog_html_8 = join [10]
     [[39] @ js ''>'',
      js ''            <button type="button" class="button button-secondary" onclick="window.close()">Cancel</button>'',
      js ''            <button type="submit" name="approved" value="true" class="button button-primary">Authorize</button>'',
      js ''        </form>'',
      js ''    </div>'',
      js ''</body>'',
      js ''</html>'']\<close>

definition dialog_html :: "ApprovalDialogOptions \<Rightarrow> jsstring" where
  "dialog_html options =
     dialog_html_0 @ interpolate (client_name (opt_client options))
     @ dialog_html_1
     @ or_default (server_logo (opt_server options)) (js ''https://www.notion.so/images/favicon.ico'')
     @ dialog_html_2 @ server_name (opt_server options)
     @ dialog_html_3 @ server_name (opt_server options)
     @ dialog_html_4
     @ or_default (server_description (opt_server options))
         (js ''This application will be able to access and modify your data.'')
     @ dialog_html_5 @ or_default (client_name (opt_client options)) (js ''Application'')
     @ dialog_html_6 @ server_name (opt_server options)
     @ dialog_html_7 @ JSON_stringify (opt_state options)
     @ dialog_html_8"

definition renderApprovalDialog :: "request \<Rightarrow> ApprovalDialogOptions \<Rightarrow> response" where
  "renderApprovalDialog request options =
     \<lparr>r_status = 200, r_body = dialog_html options,
      r_headers = [(js ''Content-Type'', js ''text/html'')]\<rparr>"

record ParsedApprovalResult =
  res_state :: jsvalue
  res_headers :: "(jsstring \<times> jsstring) list"

text \<open>\<open>formData.get(name)\<close>: the first entry of that name, or \<open>null\<close>.\<close>

definition formData_get :: "(jsstring \<times> form_entry) list \<Rightarrow> jsstring \<Rightarrow> form_entry option" where
  "formData_get fd name = map_of fd name"

text \<open>Truthiness and the string conversion of what \<open>formData.get\<close> returns.\<close>

definition entry_truthy :: "form_entry option \<Rightarrow> bool" where
  "entry_truthy e = (case e of None \<Rightarrow> False | Some (FormString s) \<Rightarrow> s \<noteq> [] | Some FormFile \<Rightarrow> True)"

definition entry_text :: "form_entry option \<Rightarrow> jsstring" where
  "entry_text e =
     (case e of None \<Rightarrow> js ''null'' | Some (FormString s) \<Rightarrow> s | Some FormFile \<Rightarrow> js ''[object File]'')"

text \<open>\<open>existing.includes(v)\<close> on an array of strings.\<close>

definition array_includes :: "jsstring list \<Rightarrow> jsvalue \<Rightarrow> bool" where
  "array_includes xs v = (case v of JString s \<Rightarrow> s \<in> set xs | _ \<Rightarrow> False)"

definition set_cookie_value :: "jsstring \<Rightarrow> jsstring" where
  "set_cookie_value cookieValue =
     COOKIE_NAME @ js ''='' @ cookieValue
     @ js ''; HttpOnly; Secure; SameSite=Lax; Max-Age='' @ dec_string ONE_YEAR_IN_SECONDS
     @ js ''; Path=/''"

definition parseRedirectApproval :: "request \<Rightarrow> jsstring \<Rightarrow> js_error + ParsedApprovalResult" where
  "parseRedirectApproval request cookieSecret =
     (case req_formData request of
        Inl e \<Rightarrow> Inl e
      | Inr formData \<Rightarrow>
          let approved = formData_get formData (js ''approved'');
              stateData = formData_get formData (js ''state'')
          in
          if approved \<noteq> Some (FormString (js ''true'')) \<or> \<not> entry_truthy stateData
          then Inl (Error (js ''Approval denied or invalid state''))
          else
                 (case JSON_parse (entry_text stateData) of
                    None \<Rightarrow> Inl SyntaxError
                  | Some state \<Rightarrow>
                      (case getApprovedClientsFromCookie (req_cookie request) cookieSecret of
                         Inl e \<Rightarrow> Inl e
                       | Inr existing \<Rightarrow>
                           let existingApprovedClients =
                                 (case existing of None \<Rightarrow> [] | Some cs \<Rightarrow> cs)
                           in
                           (case get_property state (js ''oauthReqInfo'') of
                              Inl e \<Rightarrow> Inl e
                            | Inr oauthReqInfo \<Rightarrow>
                                (case get_property oauthReqInfo (js ''clientId'') of
                                   Inl e \<Rightarrow> Inl e
                                 | Inr clientId \<Rightarrow>
                                     let approvedClients =
                                           (if array_includes existingApprovedClients clientId
                                            then map JString existingApprovedClients
                                            else map JString existingApprovedClients @ [clientId]);
                                         payload = JSON_stringify (JArray approvedClients)
                                     in
                                     (case importKey cookieSecret of
                                        Inl e \<Rightarrow> Inl e
                                      | Inr key \<Rightarrow>
                                          (case btoa payload of
                                             Inl e \<Rightarrow> Inl e
                                           | Inr b64 \<Rightarrow>
                                               Inr \<lparr>res_state = state,
                                                    res_headers =
                                                      [(js ''Set-Cookie'',
                                                        set_cookie_value
                                                          (signData key payload @ js ''.'' @ b64))]\<rparr>)))))))"

section \<open>utils/upstream-utils.ts: getUpstreamAuthorizeUrl\<close>

text \<open>
  The URL object of the platform: everything of the serialised URL before the query
  (\<open>url_prefix\<close>), the list behind \<open>searchParams\<close>, and the fragment. The URL parser
  itself (\<open>new URL(s)\<close>) is a parameter \<open>parseURL\<close>; \<open>None\<close> is its TypeError on a
  string that is not a URL.
\<close>

record URL =
  url_prefix :: jsstring
  url_params :: "(jsstring \<times> jsstring) list"
  url_fragment :: "jsstring option"

text \<open>\<open>URLSearchParams.set\<close>: the first pair of that name gets the value and the others
  of that name are removed; without such a pair the new pair is appended.\<close>

fun searchParams_set :: "jsstring \<Rightarrow> jsstring \<Rightarrow> (jsstring \<times> jsstring) list \<Rightarrow> (jsstring \<times> jsstring) list" where
  "searchParams_set n v [] = [(n, v)]"
| "searchParams_set n v ((k, w) # ps) =
     (if k = n then (n, v) # filter (\<lambda>p. fst p \<noteq> n) ps
      else (k, w) # searchParams_set n v ps)"

definition searchParams_getAll :: "jsstring \<Rightarrow> (jsstring \<times> jsstring) list \<Rightarrow> jsstring list" where
  "searchParams_getAll n ps = map snd (filter (\<lambda>p. fst p = n) ps)"

text \<open>The application/x-www-form-urlencoded serialiser behind \<open>href\<close>.\<close>

definition urlencode_byte :: "nat \<Rightarrow> jsstring" where
  "urlencode_byte b =
     (if b = 0x20 then js ''+''
      else if (0x30 \<le> b \<and> b \<le> 0x39) \<or> (0x41 \<le> b \<and> b \<le> 0x5A) \<or> (0x61 \<le> b \<and> b \<le> 0x7A)
              \<or> b = 0x2A \<or> b = 0x2D \<or> b = 0x2E \<or> b = 0x5F then [b]
      else [0x25, HEX_digit (b div 16), HEX_digit (b mod 16)])"

definition urlencode :: "jsstring \<Rightarrow> jsstring" where
  "urlencode s = concat (map urlencode_byte (TextEncoder_encode s))"

fun urlencoded_serialize :: "(jsstring \<times> jsstring) list \<Rightarrow> jsstring" where
  "urlencoded_serialize [] = []"
| "urlencoded_serialize [(n, v)] = urlencode n @ js ''='' @ urlencode v"
| "urlencoded_serialize ((n, v) # p # ps) =
     urlencode n @ js ''='' @ urlencode v @ js ''&'' @ urlencoded_serialize (p # ps)"

definition URL_href :: "URL \<Rightarrow> jsstring" where
  "URL_href u =
     url_prefix u
     @ (if url_params u = [] then [] else js ''?'' @ urlencoded_serialize (url_params u))
     @ (case url_fragment u of None \<Rightarrow> [] | Some f \<Rightarrow> js ''#'' @ f)"

record authorize_options =
  o_upstream_url :: jsstring
  o_client_id :: jsstring
  o_redirect_uri :: jsstring
  o_state :: "jsstring option"
  o_owner :: "jsstring option"

text \<open>The URL object at the \<open>return\<close> of getUpstreamAuthorizeUrl: the parsed base URL
  after the four (or five) calls of \<open>searchParams.set\<close>. \<open>if (state)\<close> is false for an
  absent and for an empty state.\<close>

definition upstream_with_params :: "URL \<Rightarrow> authorize_options \<Rightarrow> URL" where
  "upstream_with_params upstream opts =
     (let p1 = searchParams_set (js ''client_id'') (o_client_id opts) (url_params upstream);
          p2 = searchParams_set (js ''redirect_uri'') (o_redirect_uri opts) p1;
          p3 = searchParams_set (js ''response_type'') (js ''code'') p2;
          p4 = searchParams_set (js ''owner'')
                 (case o_owner opts of None \<Rightarrow> js ''user'' | Some w \<Rightarrow> w) p3;
          p5 = (case o_state opts of
                  None \<Rightarrow> p4
                | Some s \<Rightarrow> if s = [] then p4 else searchParams_set (js ''state'') s p4)
      in upstream\<lparr>url_params := p5\<rparr>)"

definition getUpstreamAuthorizeUrl ::
  "(jsstring \<Rightarrow> URL option) \<Rightarrow> authorize_options \<Rightarrow> js_error + jsstring" where
  "getUpstreamAuthorizeUrl parseURL opts =
     (case parseURL (o_upstream_url opts) of
        None \<Rightarrow> Inl TypeError
      | Some upstream \<Rightarrow> Inr (URL_href (upstream_with_params upstream opts)))"

section \<open>utils/upstream-utils.ts: fetchUpstreamAuthToken\<close>

text \<open>
  The one network call is a parameter \<open>fetch\<close>: given the request it either rejects
  (\<open>Inl\<close>, a network failure) or gives a response, of which the source reads the status
  (\<open>resp.ok\<close> is a status from 200 to 299) and the body text.
\<close>

record fetch_request =
  fetch_url :: jsstring
  fetch_method :: jsstring
  fetch_headers :: "(jsstring \<times> jsstring) list"
  fetch_body :: jsstring

record fetch_response =
  resp_status :: nat
  resp_text :: jsstring

definition resp_ok :: "fetch_response \<Rightarrow> bool" where
  "resp_ok resp = (200 \<le> resp_status resp \<and> resp_status resp \<le> 299)"

record token_options =
  t_client_id :: jsstring
  t_client_secret :: jsstring
  t_code :: "jsstring option"
  t_redirect_uri :: jsstring
  t_upstream_url :: jsstring

text \<open>\<open>new Response(text, {status})\<close>.\<close>

definition text_response :: "jsstring \<Rightarrow> nat \<Rightarrow> response" where
  "text_response text st = \<lparr>r_status = st, r_body = text, r_headers = []\<rparr>"

text \<open>The request that fetchUpstreamAuthToken sends, given the credentials and the code.\<close>

definition token_request :: "token_options \<Rightarrow> jsstring \<Rightarrow> jsstring \<Rightarrow> fetch_request" where
  "token_request opts credentials code =
     \<lparr>fetch_url = t_upstream_url opts, fetch_method = js ''POST'',
      fetch_headers = [(js ''Authorization'', js ''Basic '' @ credentials),
                       (js ''Content-Type'', js ''application/json'')],
      fetch_body = JSON_stringify (JObject
                     [(js ''grant_type'', JString (js ''authorization_code'')),
                      (js ''code'', JString code),
                      (js ''redirect_uri'', JString (t_redirect_uri opts))])\<rparr>"

definition fetchUpstreamAuthToken ::
  "(fetch_request \<Rightarrow> js_error + fetch_response) \<Rightarrow> token_options
     \<Rightarrow> js_error + (jsvalue option \<times> response option)" where
  "fetchUpstreamAuthToken fetch opts =
     (case t_code opts of
        None \<Rightarrow> Inr (None, Some (text_response (js ''Missing code'') 400))
      | Some code \<Rightarrow>
          if code = [] then Inr (None, Some (text_response (js ''Missing code'') 400))
          else
            (case btoa (t_client_id opts @ js '':'' @ t_client_secret opts) of
               Inl e \<Rightarrow> Inl e
             | Inr credentials \<Rightarrow>
                 (case fetch (token_request opts credentials code) of
                    Inl e \<Rightarrow> Inl e
                  | Inr resp \<Rightarrow>
                      if \<not> resp_ok resp
                      then Inr (None, Some (text_response (js ''Failed to fetch access token'') 500))
                      else
                        (case JSON_parse (resp_text resp) of
                           None \<Rightarrow> Inl SyntaxError
                         | Some body \<Rightarrow>
                             (case get_property body (js ''access_token'') of
                                Inl e \<Rightarrow> Inl e
                              | Inr accessToken \<Rightarrow>
                                  if \<not> truthy accessToken
                                  then Inr (None, Some (text_response (js ''Missing access token'') 400))
                                  else Inr (Some body, None))))))"

section \<open>auth-handler.ts: the routes\<close>

text \<open>
  What the handlers take from outside: the bindings of the environment, the URL
  constructor (\<open>parseURL\<close> as above, \<open>p_resolveURL path base\<close> for the href of
  \<open>new URL(path, base)\<close>), \<open>p_fetch\<close>, and \<open>p_completeAuthorization\<close> of the OAuth provider,
  which gives the URL to redirect to or throws.
\<close>

record Env =
  NOTION_OAUTH_CLIENT_ID :: jsstring
  NOTION_OAUTH_CLIENT_SECRET :: jsstring
  COOKIE_ENCRYPTION_KEY :: jsstring

record complete_options =
  co_request :: jsvalue
  co_userId :: jsvalue
  co_label :: jsvalue
  co_scope :: jsvalue
  co_props :: jsvalue

record platform =
  p_parseURL :: "jsstring \<Rightarrow> URL option"
  p_resolveURL :: "jsstring \<Rightarrow> jsstring \<Rightarrow> jsstring option"
  p_fetch :: "fetch_request \<Rightarrow> js_error + fetch_response"
  p_completeAuthorization :: "complete_options \<Rightarrow> js_error + jsstring"

definition redirectToNotion ::
  "platform \<Rightarrow> request \<Rightarrow> jsvalue \<Rightarrow> Env \<Rightarrow> (jsstring \<times> jsstring) list \<Rightarrow> js_error + response" where
  "redirectToNotion p request oauthReqInfo env hdrs =
     (case p_resolveURL p (js ''/callback'') (req_url request) of
        None \<Rightarrow> Inl TypeError
      | Some redirect \<Rightarrow>
          (case btoa (JSON_stringify oauthReqInfo) of
             Inl e \<Rightarrow> Inl e
           | Inr st \<Rightarrow>
               (case getUpstreamAuthorizeUrl (p_parseURL p)
                       \<lparr>o_upstream_url = js ''https://api.notion.com/v1/oauth/authorize'',
                        o_client_id = NOTION_OAUTH_CLIENT_ID env,
                        o_redirect_uri = redirect,
                        o_state = Some st,
                        o_owner = Some (js ''user'')\<rparr> of
                  Inl e \<Rightarrow> Inl e
                | Inr location \<Rightarrow>
                    Inr \<lparr>r_status = 302, r_body = [],
                         r_headers = hdrs @ [(js ''location'', location)]\<rparr>)))"

text \<open>POST /authorize. An exception of the handler leaves it (\<open>Inl\<close>).\<close>

definition post_authorize :: "platform \<Rightarrow> request \<Rightarrow> Env \<Rightarrow> js_error + response" where
  "post_authorize p request env =
     (case parseRedirectApproval request (COOKIE_ENCRYPTION_KEY env) of
        Inl e \<Rightarrow> Inl e
      | Inr result \<Rightarrow>
          (case get_property (res_state result) (js ''oauthReqInfo'') of
             Inl e \<Rightarrow> Inl e
           | Inr oauthReqInfo \<Rightarrow>
               if \<not> truthy oauthReqInfo then Inr (text_response (js ''Invalid request'') 400)
               else redirectToNotion p request oauthReqInfo env (res_headers result)))"

text \<open>\<open>x || d\<close> on values.\<close>

definition value_or :: "jsvalue \<Rightarrow> jsvalue \<Rightarrow> jsvalue" where
  "value_or x d = (if truthy x then x else d)"

text \<open>GET /callback, given the query parameters \<open>state\<close> and \<open>code\<close> (\<open>None\<close> when the
  query has none).\<close>

definition get_callback ::
  "platform \<Rightarrow> request \<Rightarrow> jsstring option \<Rightarrow> jsstring option \<Rightarrow> Env \<Rightarrow> js_error + response" where
  "get_callback p request state_param code_param env =
     (case state_param of
        None \<Rightarrow> Inr (text_response (js ''Missing state'') 400)
      | Some st \<Rightarrow>
          if st = [] then Inr (text_response (js ''Missing state'') 400)
          else
            (case (case atob st of Inl e \<Rightarrow> None | Inr t \<Rightarrow> JSON_parse t) of
               None \<Rightarrow> Inr (text_response (js ''Invalid state parameter'') 400)
             | Some oauthReqInfo \<Rightarrow>
                 (case get_property oauthReqInfo (js ''clientId'') of
                    Inl e \<Rightarrow> Inl e
                  | Inr clientId \<Rightarrow>
                      if \<not> truthy clientId then Inr (text_response (js ''Invalid state'') 400)
                      else if code_param = None \<or> code_param = Some []
                      then Inr (text_response (js ''Missing code'') 400)
                      else
                        (case p_resolveURL p (js ''/callback'') (req_url request) of
                           None \<Rightarrow> Inl TypeError
                         | Some redirect \<Rightarrow>
                             (case fetchUpstreamAuthToken (p_fetch p)
                                     \<lparr>t_client_id = NOTION_OAUTH_CLIENT_ID env,
                                      t_client_secret = NOTION_OAUTH_CLIENT_SECRET env,
                                      t_code = code_param,
                                      t_redirect_uri = redirect,
                                      t_upstream_url = js ''https://api.notion.com/v1/oauth/token''\<rparr> of
                                Inl e \<Rightarrow> Inl e
                              | Inr (_, Some errResponse) \<Rightarrow> Inr errResponse
                              | Inr (None, None) \<Rightarrow> Inl TypeError
                              | Inr (Some token, None) \<Rightarrow>
                                  (case (get_property token (js ''bot_id''),
                                         get_property token (js ''workspace_id''),
                                         get_property token (js ''workspace_name''),
                                         get_property token (js ''owner''),
                                         get_property token (js ''access_token''),
                                         get_property oauthReqInfo (js ''scope'')) of
                                     (Inr bot_id, Inr workspace_id, Inr workspace_name, Inr owner,
                                      Inr access_token, Inr scope) \<Rightarrow>
                                       (case p_completeAuthorization p
                                               \<lparr>co_request = oauthReqInfo,
                                                co_userId = bot_id,
                                                co_label = value_or workspace_name
                                                             (JString (js ''Notion User'')),
                                                co_scope = scope,
                                                co_props = JObject
                                                  [(js ''bot_id'', bot_id),
                                                   (js ''workspace_id'', workspace_id),
                                                   (js ''workspace_name'', workspace_name),
                                                   (js ''owner'', owner),
                                                   (js ''accessToken'', access_token)]\<rparr> of
                                          Inl e \<Rightarrow> Inl e
                                        | Inr redirectTo \<Rightarrow>
                                            (case p_parseURL p redirectTo of
                                               None \<Rightarrow> Inl TypeError
                                             | Some u \<Rightarrow>
                                                 Inr \<lparr>r_status = 302, r_body = [],
                                                      r_headers = [(js ''Location'', URL_href u)]\<rparr>))
                                   | _ \<Rightarrow> Inl TypeError))))))"

section \<open>Auxiliary functions of the proofs\<close>

text \<open>The encoding without its padding.\<close>

fun b64_body :: "nat list \<Rightarrow> jsstring" where
  "b64_body [] = []"
| "b64_body [a] = [b64_char (a div 4), b64_char ((a mod 4) * 16)]"
| "b64_body [a, b] =
     [b64_char (a div 4), b64_char ((a mod 4) * 16 + b div 16), b64_char ((b mod 16) * 4)]"
| "b64_body (a # b # c # bs) =
     b64_char (a div 4) # b64_char ((a mod 4) * 16 + b div 16)
       # b64_char ((b mod 16) * 4 + c div 64) # b64_char (c mod 64) # b64_body bs"

text \<open>The tokens of the elements of an array of strings.\<close>

fun string_tokens :: "jsstring list \<Rightarrow> token list" where
  "string_tokens [] = []"
| "string_tokens [s] = [T_Value (JString s)]"
| "string_tokens (s # t # ss) = T_Value (JString s) # T_Comma # string_tokens (t # ss)"

section \<open>Properties of getUpstreamAuthorizeUrl\<close>

lemma filter_searchParams_set:
  "filter (\<lambda>p. fst p = m) (searchParams_set n v ps) =
     (if m = n then [(n, v)] else filter (\<lambda>p. fst p = m) ps)"
proof (induction ps)
  case Nil
  show ?case by simp
next
  case (Cons q qs)
  obtain k w where q: "q = (k, w)" by (cases q)
  have none: "filter (\<lambda>p. fst p = n) (filter (\<lambda>p. fst p \<noteq> n) qs) = []"
    by (induction qs) auto
  have other: "m \<noteq> n \<Longrightarrow>
      filter (\<lambda>p. fst p = m) (filter (\<lambda>p. fst p \<noteq> n) qs) = filter (\<lambda>p. fst p = m) qs"
    by (induction qs) auto
  show ?case using Cons.IH none other by (auto simp: q)
qed

lemma getAll_searchParams_set:
  "searchParams_getAll m (searchParams_set n v ps) =
     (if m = n then [v] else searchParams_getAll m ps)"
  by (simp add: searchParams_getAll_def filter_searchParams_set)

lemma untouched_searchParams_set:
  "n \<in> N \<Longrightarrow>
   filter (\<lambda>p. fst p \<notin> N) (searchParams_set n v ps) = filter (\<lambda>p. fst p \<notin> N) ps"
proof (induction ps)
  case Nil
  then show ?case by simp
next
  case (Cons q qs)
  obtain k w where q: "q = (k, w)" by (cases q)
  have drop: "filter (\<lambda>p. fst p \<notin> N) (filter (\<lambda>p. fst p \<noteq> n) qs) = filter (\<lambda>p. fst p \<notin> N) qs"
    using Cons.prems by (induction qs) auto
  show ?case using Cons drop by (auto simp: q)
qed

text \<open>
  C9: when the base authorize URL parses, getUpstreamAuthorizeUrl returns the href of that
  URL (same prefix, same fragment) whose query has exactly one \<open>client_id\<close>,
  \<open>redirect_uri\<close>, \<open>response_type\<close> and \<open>owner\<close> pair, holding the given client id, the
  given redirect URI, the constant \<open>code\<close> and the given owner (\<open>user\<close> when omitted);
  a \<open>state\<close> pair is set only when a state is provided, otherwise the \<open>state\<close> pairs are
  those of the base URL (none is added); pairs of every other name are kept as they were.
\<close>

theorem getUpstreamAuthorizeUrl_sets_params:
  assumes "parseURL (o_upstream_url opts) = Some upstream"
  shows "\<exists>u. getUpstreamAuthorizeUrl parseURL opts = Inr (URL_href u)
     \<and> url_prefix u = url_prefix upstream \<and> url_fragment u = url_fragment upstream
     \<and> searchParams_getAll (js ''client_id'') (url_params u) = [o_client_id opts]
     \<and> searchParams_getAll (js ''redirect_uri'') (url_params u) = [o_redirect_uri opts]
     \<and> searchParams_getAll (js ''response_type'') (url_params u) = [js ''code'']
     \<and> searchParams_getAll (js ''owner'') (url_params u)
         = [case o_owner opts of None \<Rightarrow> js ''user'' | Some w \<Rightarrow> w]
     \<and> searchParams_getAll (js ''state'') (url_params u)
         = (case o_state opts of
              None \<Rightarrow> searchParams_getAll (js ''state'') (url_params upstream)
            | Some s \<Rightarrow> if s = [] then searchParams_getAll (js ''state'') (url_params upstream)
                        else [s])
     \<and> filter (\<lambda>p. fst p \<notin> {js ''client_id'', js ''redirect_uri'', js ''response_type'',
                               js ''owner'', js ''state''}) (url_params u)
         = filter (\<lambda>p. fst p \<notin> {js ''client_id'', js ''redirect_uri'', js ''response_type'',
                                 js ''owner'', js ''state''}) (url_params upstream)"
proof -
  let ?u = "upstream_with_params upstream opts"
  have res: "getUpstreamAuthorizeUrl parseURL opts = Inr (URL_href ?u)"
    using assms by (simp add: getUpstreamAuthorizeUrl_def)
  have pre: "url_prefix ?u = url_prefix upstream" "url_fragment ?u = url_fragment upstream"
    by (simp_all add: upstream_with_params_def Let_def)
  have get: "searchParams_getAll (js ''client_id'') (url_params ?u) = [o_client_id opts]"
    "searchParams_getAll (js ''redirect_uri'') (url_params ?u) = [o_redirect_uri opts]"
    "searchParams_getAll (js ''response_type'') (url_params ?u) = [js ''code'']"
    "searchParams_getAll (js ''owner'') (url_params ?u)
         = [case o_owner opts of None \<Rightarrow> js ''user'' | Some w \<Rightarrow> w]"
    by (simp_all add: upstream_with_params_def Let_def getAll_searchParams_set
        split: option.splits)
  have st: "searchParams_getAll (js ''state'') (url_params ?u)
         = (case o_state opts of
              None \<Rightarrow> searchParams_getAll (js ''state'') (url_params upstream)
            | Some s \<Rightarrow> if s = [] then searchParams_getAll (js ''state'') (url_params upstream)
                        else [s])"
    by (simp add: upstream_with_params_def Let_def getAll_searchParams_set
        split: option.splits)
  define N where "N = {js ''client_id'', js ''redirect_uri'', js ''response_type'',
                               js ''owner'', js ''state''}"
  have mem: "js ''client_id'' \<in> N" "js ''redirect_uri'' \<in> N" "js ''response_type'' \<in> N"
    "js ''owner'' \<in> N" "js ''state'' \<in> N"
    by (simp_all add: N_def)
  have "filter (\<lambda>p. fst p \<notin> N) (url_params ?u) = filter (\<lambda>p. fst p \<notin> N) (url_params upstream)"
    by (simp add: upstream_with_params_def Let_def
        mem [THEN untouched_searchParams_set, simplified] split: option.splits)
  then have rest: "filter (\<lambda>p. fst p \<notin> {js ''client_id'', js ''redirect_uri'', js ''response_type'',
                               js ''owner'', js ''state''}) (url_params ?u)
         = filter (\<lambda>p. fst p \<notin> {js ''client_id'', js ''redirect_uri'', js ''response_type'',
                                 js ''owner'', js ''state''}) (url_params upstream)"
    unfolding N_def .
  show ?thesis
    using res pre get st rest by blast
qed

theorem getUpstreamAuthorizeUrl_sets_params_witness:
  "getUpstreamAuthorizeUrl
     (\<lambda>s. if s = js ''https://api.notion.com/v1/oauth/authorize''
           then Some \<lparr>url_prefix = s, url_params = [], url_fragment = None\<rparr> else None)
     \<lparr>o_upstream_url = js ''https://api.notion.com/v1/oauth/authorize'',
      o_client_id = js ''abc'', o_redirect_uri = js ''https://mcp.example/callback'',
      o_state = Some (js ''eyJ9''), o_owner = None\<rparr>
   = Inr (js ''https://api.notion.com/v1/oauth/authorize?client_id=abc&redirect_uri=https%3A%2F%2Fmcp.example%2Fcallback&response_type=code&owner=user&state=eyJ9'')"
  using getUpstreamAuthorizeUrl_sets_params
    [of "\<lambda>s. if s = js ''https://api.notion.com/v1/oauth/authorize''
           then Some \<lparr>url_prefix = s, url_params = [], url_fragment = None\<rparr> else None"
        "\<lparr>o_upstream_url = js ''https://api.notion.com/v1/oauth/authorize'',
      o_client_id = js ''abc'', o_redirect_uri = js ''https://mcp.example/callback'',
      o_state = Some (js ''eyJ9''), o_owner = None\<rparr>"
        "\<lparr>url_prefix = js ''https://api.notion.com/v1/oauth/authorize'', url_params = [],
          url_fragment = None\<rparr>"]
  by (simp add: getUpstreamAuthorizeUrl_def upstream_with_params_def URL_href_def
      urlencode_def urlencode_byte_def TextEncoder_encode_def utf8_bytes_def
      is_high_surrogate_def is_low_surrogate_def HEX_digit_def)

section \<open>The approval form (parseRedirectApproval, POST /authorize)\<close>

text \<open>
  C7: a submission whose \<open>approved\<close> field is not the string \<open>true\<close>, or whose \<open>state\<close>
  field is missing or empty, makes parseRedirectApproval throw the error
  "Approval denied or invalid state"; there is no result, and POST /authorize ends with
  that exception, so no response and no Set-Cookie header exist.
\<close>

theorem parseRedirectApproval_denied:
  assumes "req_formData request = Inr formData"
    and "formData_get formData (js ''approved'') \<noteq> Some (FormString (js ''true''))
         \<or> formData_get formData (js ''state'') = None
         \<or> formData_get formData (js ''state'') = Some (FormString [])"
  shows "parseRedirectApproval request cookieSecret
           = Inl (Error (js ''Approval denied or invalid state''))
       \<and> post_authorize p request env = Inl (Error (js ''Approval denied or invalid state''))"
proof -
  have falsy: "formData_get formData (js ''approved'') \<noteq> Some (FormString (js ''true''))
         \<or> \<not> entry_truthy (formData_get formData (js ''state''))"
    using assms(2) by (auto simp: entry_truthy_def)
  have "parseRedirectApproval request c = Inl (Error (js ''Approval denied or invalid state''))"
    for c
    using assms(1) falsy by (auto simp: parseRedirectApproval_def Let_def)
  then show ?thesis
    by (simp add: post_authorize_def)
qed

theorem parseRedirectApproval_denied_witness:
  "parseRedirectApproval
     \<lparr>req_url = js ''https://mcp.example/authorize'', req_cookie = None,
      req_formData = Inr [(js ''state'', FormString (js ''{}'')),
                          (js ''approved'', FormString (js ''false''))]\<rparr>
     (js ''s'')
   = Inl (Error (js ''Approval denied or invalid state''))"
proof -
  let ?fd = "[(js ''state'', FormString (js ''{}'')), (js ''approved'', FormString (js ''false''))]"
  let ?req = "\<lparr>req_url = js ''https://mcp.example/authorize'', req_cookie = None,
      req_formData = Inr ?fd\<rparr>"
  have h1: "req_formData ?req = Inr ?fd" by simp
  have h2: "formData_get ?fd (js ''approved'') \<noteq> Some (FormString (js ''true''))
         \<or> formData_get ?fd (js ''state'') = None
         \<or> formData_get ?fd (js ''state'') = Some (FormString [])"
    by (simp add: formData_get_def)
  from parseRedirectApproval_denied [OF h1 h2] show ?thesis by blast
qed

lemma parse_zero_state:
  "JSON_parse (js ''{\"oauthReqInfo\":0}'')
     = Some (JObject [(js ''oauthReqInfo'', JNumber (Finite 0 0))])"
  by (simp add: JSON_parse_def is_json_whitespace_def is_hex_digit_def is_digit_def
      is_number_char_def parse_number_def round_double_def dec_value_def define_property_def
      is_array_index_def)

lemma parse_empty_object: "JSON_parse (js ''{}'') = Some (JObject [])"
  by (simp add: JSON_parse_def is_json_whitespace_def)

text \<open>
  C10, as the claim states it, fails: the state \<open>{"oauthReqInfo":0}\<close> passes
  parseRedirectApproval (reading \<open>clientId\<close> of the number 0 gives \<open>undefined\<close>, no
  TypeError), and the handler's check \<open>!state.oauthReqInfo\<close> then answers 400.
\<close>

theorem post_authorize_400_reachable:
  "post_authorize
     \<lparr>p_parseURL = (\<lambda>s. None), p_resolveURL = (\<lambda>path base. None),
      p_fetch = (\<lambda>r. Inl TypeError), p_completeAuthorization = (\<lambda>a. Inl TypeError)\<rparr>
     \<lparr>req_url = js ''https://mcp.example/authorize'', req_cookie = None,
      req_formData = Inr [(js ''state'', FormString (js ''{\"oauthReqInfo\":0}'')),
                          (js ''approved'', FormString (js ''true''))]\<rparr>
     \<lparr>NOTION_OAUTH_CLIENT_ID = js ''id'', NOTION_OAUTH_CLIENT_SECRET = js ''secret'',
      COOKIE_ENCRYPTION_KEY = js ''s''\<rparr>
   = Inr (text_response (js ''Invalid request'') 400)"
  using parse_zero_state
  by (simp add: post_authorize_def parseRedirectApproval_def formData_get_def entry_truthy_def
      entry_text_def getApprovedClientsFromCookie_def array_includes_def importKey_def btoa_def
      Let_def)

lemma get_property_Inr_cases:
  "get_property v name = Inr w \<Longrightarrow> v \<noteq> JUndefined \<and> v \<noteq> JNull"
  by (cases v) auto

lemma get_property_Inl: "get_property v name = Inl e \<Longrightarrow> e = TypeError"
  by (cases v) auto

text \<open>
  C10 amended: when parseRedirectApproval returns, the \<open>oauthReqInfo\<close> of the returned
  state is neither \<open>undefined\<close> nor \<open>null\<close>, and POST /authorize answers 400 exactly when it
  is falsy (0, the empty string or false) and goes on to the redirect otherwise. When the
  form is approved, the state parses, the cookie decodes without exception and the state
  has no \<open>oauthReqInfo\<close> (or a \<open>null\<close> one), parseRedirectApproval throws a TypeError.
\<close>

theorem parseRedirectApproval_oauthReqInfo:
  "(parseRedirectApproval request (COOKIE_ENCRYPTION_KEY env) = Inr result \<longrightarrow>
      (\<exists>info. get_property (res_state result) (js ''oauthReqInfo'') = Inr info
         \<and> info \<noteq> JUndefined \<and> info \<noteq> JNull
         \<and> post_authorize p request env
             = (if truthy info then redirectToNotion p request info env (res_headers result)
                else Inr (text_response (js ''Invalid request'') 400))))
   \<and> (req_formData request = Inr formData
        \<and> formData_get formData (js ''approved'') = Some (FormString (js ''true''))
        \<and> entry_truthy (formData_get formData (js ''state''))
        \<and> JSON_parse (entry_text (formData_get formData (js ''state''))) = Some st
        \<and> getApprovedClientsFromCookie (req_cookie request) cookieSecret = Inr existing
        \<and> (\<forall>info. get_property st (js ''oauthReqInfo'') = Inr info
              \<longrightarrow> info = JUndefined \<or> info = JNull)
      \<longrightarrow> parseRedirectApproval request cookieSecret = Inl TypeError)"
proof (intro conjI impI)
  assume ok: "parseRedirectApproval request (COOKIE_ENCRYPTION_KEY env) = Inr result"
  then obtain st info cid where
    st: "res_state result = st"
    and info: "get_property st (js ''oauthReqInfo'') = Inr info"
    and cid: "get_property info (js ''clientId'') = Inr cid"
    by (auto simp: parseRedirectApproval_def Let_def
        split: sum.splits option.splits if_splits)
  have "info \<noteq> JUndefined \<and> info \<noteq> JNull"
    using cid by (rule get_property_Inr_cases)
  moreover have "post_authorize p request env
             = (if truthy info then redirectToNotion p request info env (res_headers result)
                else Inr (text_response (js ''Invalid request'') 400))"
    using ok st info by (simp add: post_authorize_def)
  ultimately show "\<exists>info. get_property (res_state result) (js ''oauthReqInfo'') = Inr info
         \<and> info \<noteq> JUndefined \<and> info \<noteq> JNull
         \<and> post_authorize p request env
             = (if truthy info then redirectToNotion p request info env (res_headers result)
                else Inr (text_response (js ''Invalid request'') 400))"
    using st info by auto
next
  assume h: "req_formData request = Inr formData
        \<and> formData_get formData (js ''approved'') = Some (FormString (js ''true''))
        \<and> entry_truthy (formData_get formData (js ''state''))
        \<and> JSON_parse (entry_text (formData_get formData (js ''state''))) = Some st
        \<and> getApprovedClientsFromCookie (req_cookie request) cookieSecret = Inr existing
        \<and> (\<forall>info. get_property st (js ''oauthReqInfo'') = Inr info
              \<longrightarrow> info = JUndefined \<or> info = JNull)"
  show "parseRedirectApproval request cookieSecret = Inl TypeError"
  proof (cases "get_property st (js ''oauthReqInfo'')")
    case (Inl e)
    then have "e = TypeError" by (rule get_property_Inl)
    with Inl h show ?thesis
      by (simp add: parseRedirectApproval_def Let_def)
  next
    case (Inr info)
    with h have "info = JUndefined \<or> info = JNull" by blast
    then have "get_property info (js ''clientId'') = Inl TypeError" by auto
    with Inr h show ?thesis
      by (simp add: parseRedirectApproval_def Let_def)
  qed
qed

theorem parseRedirectApproval_oauthReqInfo_witness:
  "(\<exists>info. get_property (JObject [(js ''oauthReqInfo'', JNumber (Finite 0 0))]) (js ''oauthReqInfo'')
             = Inr info \<and> info \<noteq> JUndefined \<and> info \<noteq> JNull \<and> \<not> truthy info)
   \<and> parseRedirectApproval
       \<lparr>req_url = js ''https://mcp.example/authorize'', req_cookie = None,
        req_formData = Inr [(js ''state'', FormString (js ''{}'')),
                            (js ''approved'', FormString (js ''true''))]\<rparr>
       (js ''s'')
     = Inl TypeError"
proof -
  let ?p = "\<lparr>p_parseURL = (\<lambda>s. None), p_resolveURL = (\<lambda>path base. None),
      p_fetch = (\<lambda>r. Inl TypeError), p_completeAuthorization = (\<lambda>a. Inl TypeError)\<rparr>"
  let ?env = "\<lparr>NOTION_OAUTH_CLIENT_ID = js ''id'', NOTION_OAUTH_CLIENT_SECRET = js ''secret'',
      COOKIE_ENCRYPTION_KEY = js ''s''\<rparr>"
  let ?st0 = "JObject [(js ''oauthReqInfo'', JNumber (Finite 0 0))]"
  let ?req0 = "\<lparr>req_url = js ''https://mcp.example/authorize'', req_cookie = None,
      req_formData = Inr [(js ''state'', FormString (js ''{\"oauthReqInfo\":0}'')),
                          (js ''approved'', FormString (js ''true''))]\<rparr>"
  let ?res0 = "\<lparr>res_state = ?st0,
      res_headers = [(js ''Set-Cookie'',
         set_cookie_value (signData (TextEncoder_encode (js ''s'')) (js ''[null]'')
                           @ js ''.'' @ js ''W251bGxd''))]\<rparr>"
  have h0: "parseRedirectApproval ?req0 (COOKIE_ENCRYPTION_KEY ?env) = Inr ?res0"
    using parse_zero_state
    by (simp add: parseRedirectApproval_def formData_get_def entry_truthy_def
        entry_text_def getApprovedClientsFromCookie_def array_includes_def importKey_def btoa_def
        b64_char_def Let_def)
  from parseRedirectApproval_oauthReqInfo [THEN conjunct1, rule_format, OF h0, of ?p]
  have first: "\<exists>info. get_property ?st0 (js ''oauthReqInfo'') = Inr info
      \<and> info \<noteq> JUndefined \<and> info \<noteq> JNull \<and> \<not> truthy info"
    by auto
  let ?fd = "[(js ''state'', FormString (js ''{}'')), (js ''approved'', FormString (js ''true''))]"
  let ?req = "\<lparr>req_url = js ''https://mcp.example/authorize'', req_cookie = None,
      req_formData = Inr ?fd\<rparr>"
  have h: "req_formData ?req = Inr ?fd
        \<and> formData_get ?fd (js ''approved'') = Some (FormString (js ''true''))
        \<and> entry_truthy (formData_get ?fd (js ''state''))
        \<and> JSON_parse (entry_text (formData_get ?fd (js ''state''))) = Some (JObject [])
        \<and> getApprovedClientsFromCookie (req_cookie ?req) (js ''s'') = Inr None
        \<and> (\<forall>info. get_property (JObject []) (js ''oauthReqInfo'') = Inr info
              \<longrightarrow> info = JUndefined \<or> info = JNull)"
    using parse_empty_object
    by (simp add: formData_get_def entry_truthy_def entry_text_def
        getApprovedClientsFromCookie_def)
  from parseRedirectApproval_oauthReqInfo [THEN conjunct2, rule_format, OF h]
  have second: "parseRedirectApproval ?req (js ''s'') = Inl TypeError" .
  from first second show ?thesis by blast
qed

section \<open>GET /callback\<close>

lemma atob_null_state: "atob (js ''bnVsbA=='') = Inr (js ''null'')"
  by (simp add: atob_def strip_padding_def is_ascii_whitespace_def is_b64_char_def b64_index_def)

lemma parse_null: "JSON_parse (js ''null'') = Some JNull"
  by (simp add: JSON_parse_def is_json_whitespace_def)

text \<open>A missing or empty \<open>state\<close>, and a \<open>state\<close> that is not base64 or not JSON, are
  answered with 400.\<close>

lemma get_callback_missing_state:
  "state_param = None \<or> state_param = Some []
   \<Longrightarrow> get_callback p request state_param code_param env
       = Inr (text_response (js ''Missing state'') 400)"
  by (auto simp: get_callback_def)

lemma get_callback_undecodable_state:
  "st \<noteq> [] \<Longrightarrow> atob st = Inl e \<or> (\<exists>t. atob st = Inr t \<and> JSON_parse t = None)
   \<Longrightarrow> get_callback p request (Some st) code_param env
       = Inr (text_response (js ''Invalid state parameter'') 400)"
  by (auto simp: get_callback_def)

text \<open>
  C8: at the \<open>state\<close> parameter \<open>bnVsbA==\<close>, the base64 of the JSON text \<open>null\<close>, the
  handler does not answer 400: reading \<open>clientId\<close> of \<open>null\<close> throws a TypeError, with or
  without a \<open>code\<close> parameter and before any token exchange.
\<close>

theorem get_callback_null_state_throws:
  "get_callback p request (Some (js ''bnVsbA=='')) code_param env = Inl TypeError"
  using atob_null_state parse_null by (simp add: get_callback_def)

section \<open>The token exchange (fetchUpstreamAuthToken)\<close>

text \<open>
  C6, as the claim states it, fails: when the token endpoint answers 200 with a body that
  is not JSON, \<open>resp.json()\<close> throws and fetchUpstreamAuthToken returns no pair.
\<close>

theorem fetchUpstreamAuthToken_throws:
  "fetchUpstreamAuthToken
     (\<lambda>r. Inr \<lparr>resp_status = 200, resp_text = js ''<html>''\<rparr>)
     \<lparr>t_client_id = js ''id'', t_client_secret = js ''secret'', t_code = Some (js ''abc''),
      t_redirect_uri = js ''https://mcp.example/callback'',
      t_upstream_url = js ''https://api.notion.com/v1/oauth/token''\<rparr>
   = Inl SyntaxError"
  by (simp add: fetchUpstreamAuthToken_def btoa_def resp_ok_def JSON_parse_def
      is_json_whitespace_def is_digit_def)

text \<open>
  C6 amended: without a code the result is the pair of \<open>null\<close> and the response
  400 "Missing code", and nothing is fetched. With a code, when \<open>btoa\<close> returns on the
  credentials (they are Latin-1), the fetch resolves, and the body of a success response is
  the JSON text of a value other than \<open>null\<close>: the result is the pair of \<open>null\<close> and
  500 "Failed to fetch access token" exactly when the status is not a success; of \<open>null\<close>
  and 400 "Missing access token" exactly when the status is a success and \<open>access_token\<close>
  of the body is missing or falsy; and of the parsed body and \<open>null\<close> otherwise. The three
  error bodies are constants of the source. The function has no \<open>try\<close>: the exception of
  \<open>btoa\<close>, the rejection of the fetch, and the SyntaxError of \<open>resp.json()\<close> on a success
  body that is not JSON text leave it as they are.
\<close>

theorem fetchUpstreamAuthToken_pair:
  "((t_code opts = None \<or> t_code opts = Some []) \<longrightarrow>
      fetchUpstreamAuthToken fetch opts = Inr (None, Some (text_response (js ''Missing code'') 400)))
   \<and> (t_code opts = Some code \<and> code \<noteq> []
        \<and> btoa (t_client_id opts @ js '':'' @ t_client_secret opts) = Inr credentials
        \<and> fetch (token_request opts credentials code) = Inr resp
        \<and> (resp_ok resp \<longrightarrow> JSON_parse (resp_text resp) = Some b
                            \<and> get_property b (js ''access_token'') = Inr accessToken)
      \<longrightarrow> fetchUpstreamAuthToken fetch opts
           = (if \<not> resp_ok resp
              then Inr (None, Some (text_response (js ''Failed to fetch access token'') 500))
              else if \<not> truthy accessToken
              then Inr (None, Some (text_response (js ''Missing access token'') 400))
              else Inr (Some b, None)))
   \<and> (t_code opts = Some code \<and> code \<noteq> []
        \<and> btoa (t_client_id opts @ js '':'' @ t_client_secret opts) = Inl e
      \<longrightarrow> fetchUpstreamAuthToken fetch opts = Inl e)
   \<and> (t_code opts = Some code \<and> code \<noteq> []
        \<and> btoa (t_client_id opts @ js '':'' @ t_client_secret opts) = Inr credentials
        \<and> fetch (token_request opts credentials code) = Inl e
      \<longrightarrow> fetchUpstreamAuthToken fetch opts = Inl e)
   \<and> (t_code opts = Some code \<and> code \<noteq> []
        \<and> btoa (t_client_id opts @ js '':'' @ t_client_secret opts) = Inr credentials
        \<and> fetch (token_request opts credentials code) = Inr resp
        \<and> resp_ok resp \<and> JSON_parse (resp_text resp) = None
      \<longrightarrow> fetchUpstreamAuthToken fetch opts = Inl SyntaxError)"
proof (intro conjI impI)
  assume "t_code opts = None \<or> t_code opts = Some []"
  then show "fetchUpstreamAuthToken fetch opts
      = Inr (None, Some (text_response (js ''Missing code'') 400))"
    by (auto simp: fetchUpstreamAuthToken_def)
next
  assume "t_code opts = Some code \<and> code \<noteq> []
        \<and> btoa (t_client_id opts @ js '':'' @ t_client_secret opts) = Inr credentials
        \<and> fetch (token_request opts credentials code) = Inr resp
        \<and> (resp_ok resp \<longrightarrow> JSON_parse (resp_text resp) = Some b
                            \<and> get_property b (js ''access_token'') = Inr accessToken)"
  then show "fetchUpstreamAuthToken fetch opts
           = (if \<not> resp_ok resp
              then Inr (None, Some (text_response (js ''Failed to fetch access token'') 500))
              else if \<not> truthy accessToken
              then Inr (None, Some (text_response (js ''Missing access token'') 400))
              else Inr (Some b, None))"
    by (auto simp: fetchUpstreamAuthToken_def)
next
  assume "t_code opts = Some code \<and> code \<noteq> []
        \<and> btoa (t_client_id opts @ js '':'' @ t_client_secret opts) = Inl e"
  then show "fetchUpstreamAuthToken fetch opts = Inl e"
    by (simp add: fetchUpstreamAuthToken_def)
next
  assume "t_code opts = Some code \<and> code \<noteq> []
        \<and> btoa (t_client_id opts @ js '':'' @ t_client_secret opts) = Inr credentials
        \<and> fetch (token_request opts credentials code) = Inl e"
  then show "fetchUpstreamAuthToken fetch opts = Inl e"
    by (simp add: fetchUpstreamAuthToken_def)
next
  assume "t_code opts = Some code \<and> code \<noteq> []
        \<and> btoa (t_client_id opts @ js '':'' @ t_client_secret opts) = Inr credentials
        \<and> fetch (token_request opts credentials code) = Inr resp
        \<and> resp_ok resp \<and> JSON_parse (resp_text resp) = None"
  then show "fetchUpstreamAuthToken fetch opts = Inl SyntaxError"
    by (simp add: fetchUpstreamAuthToken_def)
qed

lemma parse_token_body:
  "JSON_parse (js ''{\"access_token\":\"tok\"}'')
     = Some (JObject [(js ''access_token'', JString (js ''tok''))])"
  by (simp add: JSON_parse_def is_json_whitespace_def is_hex_digit_def is_digit_def
      unescape_def define_property_def is_array_index_def)

theorem fetchUpstreamAuthToken_pair_witness:
  "fetchUpstreamAuthToken
     (\<lambda>r. Inr \<lparr>resp_status = 200, resp_text = js ''{\"access_token\":\"tok\"}''\<rparr>)
     \<lparr>t_client_id = js ''id'', t_client_secret = js ''secret'', t_code = Some (js ''abc''),
      t_redirect_uri = js ''https://mcp.example/callback'',
      t_upstream_url = js ''https://api.notion.com/v1/oauth/token''\<rparr>
   = Inr (Some (JObject [(js ''access_token'', JString (js ''tok''))]), None)"
proof -
  let ?fetch = "\<lambda>r :: fetch_request.
      (Inr \<lparr>resp_status = 200, resp_text = js ''{\"access_token\":\"tok\"}''\<rparr>
         :: js_error + fetch_response)"
  let ?opts = "\<lparr>t_client_id = js ''id'', t_client_secret = js ''secret'',
      t_code = Some (js ''abc''), t_redirect_uri = js ''https://mcp.example/callback'',
      t_upstream_url = js ''https://api.notion.com/v1/oauth/token''\<rparr>"
  let ?resp = "\<lparr>resp_status = 200, resp_text = js ''{\"access_token\":\"tok\"}''\<rparr>"
  let ?b = "JObject [(js ''access_token'', JString (js ''tok''))]"
  have h: "t_code ?opts = Some (js ''abc'') \<and> js ''abc'' \<noteq> []
        \<and> btoa (t_client_id ?opts @ js '':'' @ t_client_secret ?opts) = Inr (js ''aWQ6c2VjcmV0'')
        \<and> ?fetch (token_request ?opts (js ''aWQ6c2VjcmV0'') (js ''abc'')) = Inr ?resp
        \<and> (resp_ok ?resp \<longrightarrow> JSON_parse (resp_text ?resp) = Some ?b
                            \<and> get_property ?b (js ''access_token'') = Inr (JString (js ''tok'')))"
    using parse_token_body by (simp add: btoa_def b64_char_def)
  from fetchUpstreamAuthToken_pair [THEN conjunct2, THEN conjunct1, rule_format, OF h]
  show ?thesis by (simp add: resp_ok_def)
qed

section \<open>The consent gate at a cookie that is not base64\<close>

lemmas cookie_eval_defs =
  getApprovedClientsFromCookie_def COOKIE_NAME_def startsWith_def trim_def is_white_space_def

text \<open>
  C3: with the header \<open>Cookie: mcp-approved-clients=00.!\<close> the payload part is not
  base64; \<open>atob\<close> stands outside the \<open>try\<close> blocks of getApprovedClientsFromCookie, its
  InvalidCharacterError leaves the function, and clientIdAlreadyApproved throws instead of
  returning \<open>false\<close>.
\<close>

theorem clientIdAlreadyApproved_throws:
  "clientIdAlreadyApproved
     \<lparr>req_url = js ''https://mcp.example/authorize'',
      req_cookie = Some (js ''mcp-approved-clients=00.!''),
      req_formData = Inl TypeError\<rparr>
     (js ''abc'') (js ''s'')
   = Inl InvalidCharacterError"
  by (simp add: clientIdAlreadyApproved_def cookie_eval_defs atob_def strip_padding_def
      is_ascii_whitespace_def is_b64_char_def)

text \<open>What does hold: an empty client id is never approved, and otherwise the answer is
  the membership in the decoded list, \<open>false\<close> when the decoding gives \<open>null\<close>.\<close>

lemma clientIdAlreadyApproved_empty: "clientIdAlreadyApproved request [] cookieSecret = Inr False"
  by (simp add: clientIdAlreadyApproved_def)

lemma clientIdAlreadyApproved_decoded:
  "clientId \<noteq> [] \<Longrightarrow> getApprovedClientsFromCookie (req_cookie request) cookieSecret = Inr r
   \<Longrightarrow> clientIdAlreadyApproved request clientId cookieSecret
       = Inr (case r of None \<Rightarrow> False | Some approved \<Rightarrow> clientId \<in> set approved)"
  by (simp add: clientIdAlreadyApproved_def split: option.splits)

section \<open>The approval dialog\<close>

lemma startsWith_iff: "startsWith s p = (\<exists>r. s = p @ r)"
proof
  assume "startsWith s p"
  then have "s = p @ drop (length p) s"
    unfolding startsWith_def by (metis append_take_drop_id)
  then show "\<exists>r. s = p @ r" ..
next
  assume "\<exists>r. s = p @ r"
  then show "startsWith s p" by (auto simp: startsWith_def)
qed

lemma startsWith_append: "startsWith v p \<Longrightarrow> startsWith (v @ w) p"
  by (auto simp: startsWith_iff)

lemma endsWith_iff: "endsWith s p = (\<exists>r. s = r @ p)"
proof
  assume "endsWith s p"
  then have "s = take (length s - length p) s @ p"
    unfolding endsWith_def by (metis append_take_drop_id)
  then show "\<exists>r. s = r @ p" ..
next
  assume "\<exists>r. s = r @ p"
  then show "endsWith s p" by (auto simp: endsWith_def)
qed

lemma string_includes_append: "string_includes (a @ t @ b) t"
proof (induction a)
  case Nil
  have "startsWith (t @ b) t" by (simp add: startsWith_def)
  then show ?case by (cases "t @ b") auto
next
  case (Cons x a)
  then show ?case by simp
qed

lemma string_includes_between:
  assumes "endsWith x u" and "startsWith y v"
  shows "string_includes (pre @ x @ m @ y @ post) (u @ m @ v)"
proof -
  from assms obtain a b where "x = a @ u" "y = v @ b"
    by (auto simp: endsWith_iff startsWith_iff)
  then have "pre @ x @ m @ y @ post = (pre @ a) @ (u @ m @ v) @ (b @ post)"
    by simp
  then show ?thesis
    by (simp only: string_includes_append)
qed

lemma join_Cons2: "ys \<noteq> [] \<Longrightarrow> join sep (x # ys) = x @ sep @ join sep ys"
  by (cases ys) simp_all

lemma dialog_html_0_end: "endsWith dialog_html_0 (js ''<title>Authorize '')"
  unfolding dialog_html_0_def by (simp add: endsWith_def)

lemma dialog_html_1_start: "startsWith dialog_html_1 (js ''</title>'')"
  unfolding dialog_html_1_def
  by (subst join_Cons2, simp, rule startsWith_append, simp add: startsWith_def)

lemma dialog_html_5_end: \<open>endsWith dialog_html_5 (js ''<div class="client-name">'')\<close>
  unfolding dialog_html_5_def by (simp add: endsWith_def)

lemma dialog_html_6_start: "startsWith dialog_html_6 (js ''</div>'')"
  unfolding dialog_html_6_def
  by (subst join_Cons2, simp, rule startsWith_append, simp add: startsWith_def)

lemma dialog_html_7_end: \<open>endsWith dialog_html_7 (js ''value='' @ [39])\<close>
  unfolding dialog_html_7_def by (simp add: endsWith_def)

lemma dialog_html_8_start: "startsWith dialog_html_8 ([39] @ js ''>'')"
  unfolding dialog_html_8_def
  by (subst join_Cons2, simp, rule startsWith_append, simp add: startsWith_def)

lemma dialog_includes_title:
  \<open>string_includes (dialog_html options)
     (js ''<title>Authorize '' @ interpolate (client_name (opt_client options)) @ js ''</title>'')\<close>
  unfolding dialog_html_def
  using string_includes_between [OF dialog_html_0_end dialog_html_1_start, of "[]"]
  by simp

lemma dialog_includes_client_name:
  \<open>string_includes (dialog_html options)
     (js ''<div class="client-name">''
      @ or_default (client_name (opt_client options)) (js ''Application'') @ js ''</div>'')\<close>
proof -
  let ?pre = "dialog_html_0 @ interpolate (client_name (opt_client options))
     @ dialog_html_1
     @ or_default (server_logo (opt_server options)) (js ''https://www.notion.so/images/favicon.ico'')
     @ dialog_html_2 @ server_name (opt_server options)
     @ dialog_html_3 @ server_name (opt_server options)
     @ dialog_html_4
     @ or_default (server_description (opt_server options))
         (js ''This application will be able to access and modify your data.'')"
  have "dialog_html options
      = ?pre @ dialog_html_5 @ or_default (client_name (opt_client options)) (js ''Application'')
        @ dialog_html_6 @ (server_name (opt_server options)
        @ dialog_html_7 @ JSON_stringify (opt_state options) @ dialog_html_8)"
    by (simp add: dialog_html_def)
  then show ?thesis
    by (simp only: string_includes_between [OF dialog_html_5_end dialog_html_6_start])
qed

lemma dialog_includes_state:
  \<open>string_includes (dialog_html options)
     ((js ''value='' @ [39]) @ JSON_stringify (opt_state options) @ ([39] @ js ''>''))\<close>
proof -
  let ?pre = "dialog_html_0 @ interpolate (client_name (opt_client options))
     @ dialog_html_1
     @ or_default (server_logo (opt_server options)) (js ''https://www.notion.so/images/favicon.ico'')
     @ dialog_html_2 @ server_name (opt_server options)
     @ dialog_html_3 @ server_name (opt_server options)
     @ dialog_html_4
     @ or_default (server_description (opt_server options))
         (js ''This application will be able to access and modify your data.'')
     @ dialog_html_5 @ or_default (client_name (opt_client options)) (js ''Application'')
     @ dialog_html_6 @ server_name (opt_server options)"
  have "dialog_html options
      = ?pre @ dialog_html_7 @ JSON_stringify (opt_state options) @ dialog_html_8 @ []"
    by (simp add: dialog_html_def)
  then show ?thesis
    by (simp only: string_includes_between [OF dialog_html_7_end dialog_html_8_start])
qed

text \<open>
  C5, as the claim states it, fails: a client name with markup is part of the rendered
  document as it is.
\<close>

theorem renderApprovalDialog_raw_markup:
  "string_includes
     (r_body (renderApprovalDialog
        \<lparr>req_url = js ''https://mcp.example/authorize'', req_cookie = None,
         req_formData = Inl TypeError\<rparr>
        \<lparr>opt_client = \<lparr>client_name = Some (js ''<script>alert(1)</script>'')\<rparr>,
         opt_server = \<lparr>server_name = js ''Cloudflare Notion MCP Server'',
                       server_logo = Some (js ''https://www.notion.so/images/logo-ios.png''),
                       server_description = None\<rparr>,
         opt_state = JObject []\<rparr>))
     (js ''<title>Authorize <script>alert(1)</script></title>'')"
  using dialog_includes_title
    [of "\<lparr>opt_client = \<lparr>client_name = Some (js ''<script>alert(1)</script>'')\<rparr>,
         opt_server = \<lparr>server_name = js ''Cloudflare Notion MCP Server'',
                       server_logo = Some (js ''https://www.notion.so/images/logo-ios.png''),
                       server_description = None\<rparr>,
         opt_state = JObject []\<rparr>"]
  by (simp add: renderApprovalDialog_def interpolate_def)

text \<open>
  C5 amended: renderApprovalDialog escapes nothing. For every client name the document
  contains \<open><title>Authorize NAME</title>\<close> with the name as it is (\<open>undefined\<close> for a
  missing one), the client-name element with the name as it is (\<open>Application\<close> for a missing
  or empty one), and the JSON text of the state as it is between the single quotes of the
  hidden field's \<open>value\<close> attribute.
\<close>

theorem renderApprovalDialog_verbatim:
  \<open>string_includes (r_body (renderApprovalDialog request options))
     (js ''<title>Authorize '' @ interpolate (client_name (opt_client options)) @ js ''</title>'')
   \<and> string_includes (r_body (renderApprovalDialog request options))
     (js ''<div class="client-name">''
      @ or_default (client_name (opt_client options)) (js ''Application'') @ js ''</div>'')
   \<and> string_includes (r_body (renderApprovalDialog request options))
     ((js ''value='' @ [39]) @ JSON_stringify (opt_state options) @ ([39] @ js ''>''))
   \<and> r_status (renderApprovalDialog request options) = 200\<close>
  using dialog_includes_title [of options] dialog_includes_client_name [of options]
    dialog_includes_state [of options]
  by (simp add: renderApprovalDialog_def)

section \<open>Signatures: hexadecimal round trip and the shape of the MAC\<close>

lemma hex_digit_props:
  assumes "n < 16"
  shows "is_hex_digit (hex_digit n)" "hex_value (hex_digit n) = n"
    "\<not> is_white_space (hex_digit n)" "\<not> is_line_terminator (hex_digit n)"
    "hex_digit n \<noteq> 45" "hex_digit n \<noteq> 43" "hex_digit n \<noteq> 120" "hex_digit n \<noteq> 88"
    "hex_digit n \<noteq> 0x3B" "hex_digit n \<noteq> 0x2E"
  using assms
  by (auto simp: hex_digit_def is_hex_digit_def hex_value_def is_white_space_def
      is_line_terminator_def)

lemma parseInt16_hex_byte:
  assumes "b < 256"
  shows "ToUint8 (parseInt16 (hex_byte b)) = b"
proof -
  have d: "b div 16 < 16" "b mod 16 < 16" using assms by auto
  note p1 = hex_digit_props [OF d(1)] and p2 = hex_digit_props [OF d(2)]
  have "parseInt16 (hex_byte b) = Some (int (b div 16 * 16 + b mod 16))"
    using p1 p2 by (simp add: parseInt16_def hex_byte_def Let_def)
  then show ?thesis using assms by (simp add: ToUint8_def)
qed

lemma match_pairs_hex: "match_pairs (concat (map hex_byte bs) @ []) = map hex_byte bs"
  if "\<forall>b \<in> set bs. b < 256"
  using that
proof (induction bs)
  case Nil
  show ?case by simp
next
  case (Cons b bs)
  have d: "b div 16 < 16" "b mod 16 < 16" using Cons.prems by auto
  show ?case
    using Cons hex_digit_props(4) [OF d(1)] hex_digit_props(4) [OF d(2)]
    by (simp add: hex_byte_def)
qed

lemma word_bytes_bound: "\<forall>b \<in> set (word_bytes w). b < 256"
proof -
  have "unat (x AND (0xFF :: u32)) < 256" for x
  proof -
    have "x AND 0xFF \<le> 0xFF" by (rule word_and_le1)
    then have "unat (x AND 0xFF) \<le> unat (0xFF :: u32)" by (simp add: word_le_nat_alt)
    then show ?thesis by simp
  qed
  then show ?thesis by (simp add: word_bytes_def)
qed

lemma sha256_bytes: "\<forall>b \<in> set (sha256 bs). b < 256"
  using word_bytes_bound by (auto simp: sha256_def)

lemma hmac_sha256_bytes: "\<forall>b \<in> set (hmac_sha256 key msg). b < 256"
  using sha256_bytes by (simp add: hmac_sha256_def Let_def)

lemma round256_length: "length s = 8 \<Longrightarrow> length (round256 s k w) = 8"
  by (cases "(s, k, w)" rule: round256.cases) (auto simp: Let_def)

lemma rounds_length: "length s = 8 \<Longrightarrow> length (rounds ks s ws) = 8"
  by (induction ks s ws rule: rounds.induct) (simp_all add: round256_length)

lemma compress_length: "length hs = 8 \<Longrightarrow> length (compress hs m) = 8"
  by (simp add: compress_def rounds_length)

lemma H256_length: "length H256 = 8"
  by (simp add: H256_def is_prime_def upt_conv_Cons)

lemma foldl_compress_length: "length hs = 8 \<Longrightarrow> length (foldl compress hs ms) = 8"
  by (induction ms arbitrary: hs) (simp_all add: compress_length)

lemma sha256_length: "length (sha256 bs) = 32"
proof -
  have "length (foldl compress H256 (map be32 (blocks (sha_pad bs)))) = 8"
    by (rule foldl_compress_length [OF H256_length])
  moreover have "length (concat (map word_bytes ws)) = 4 * length ws" for ws
    by (induction ws) (simp_all add: word_bytes_def)
  ultimately show ?thesis by (simp add: sha256_def)
qed

lemma hmac_sha256_length: "length (hmac_sha256 key msg) = 32"
  by (simp add: hmac_sha256_def Let_def sha256_length)

lemma hex_byte_chars:
  assumes "b < 256" and "c \<in> set (hex_byte b)"
  shows "is_hex_digit c"
proof -
  have d: "b div 16 < 16" "b mod 16 < 16" using assms(1) by auto
  from assms(2) hex_digit_props(1) [OF d(1)] hex_digit_props(1) [OF d(2)]
  show ?thesis by (auto simp: hex_byte_def)
qed

lemma signData_hex: "\<forall>c \<in> set (signData key data). is_hex_digit c"
  using hmac_sha256_bytes hex_byte_chars by (fastforce simp: signData_def)

lemma verifySignature_signData: "verifySignature key (signData key data) data"
proof -
  let ?mac = "hmac_sha256 key (TextEncoder_encode data)"
  have bytes: "\<forall>b \<in> set ?mac. b < 256" by (rule hmac_sha256_bytes)
  have pairs: "match_pairs (signData key data) = map hex_byte ?mac"
    using match_pairs_hex [OF bytes] by (simp add: signData_def)
  have "?mac \<noteq> []" using hmac_sha256_length [of key "TextEncoder_encode data"] by auto
  then obtain p ps where ps: "map hex_byte ?mac = p # ps" by (cases ?mac) auto
  have "map (\<lambda>byte. ToUint8 (parseInt16 byte)) (map hex_byte ?mac) = ?mac"
    using bytes by (induction ?mac) (simp_all add: parseInt16_hex_byte map_idI)
  then show ?thesis
    using pairs ps by (simp add: verifySignature_def)
qed

section \<open>Base64 round trip\<close>

lemma b64_char_props:
  assumes "n < 64"
  shows "is_b64_char (b64_char n)" "b64_index (b64_char n) = n" "b64_char n \<noteq> 61"
    "\<not> is_ascii_whitespace (b64_char n)" "\<not> is_white_space (b64_char n)"
    "b64_char n \<noteq> 0x3B" "b64_char n \<noteq> 0x2E"
  using assms
  by (auto simp: b64_char_def is_b64_char_def b64_index_def is_ascii_whitespace_def
      is_white_space_def)

lemma sextets:
  assumes "a < 256" "b < 256" "(c::nat) < 256"
  shows "a div 4 < 64" "(a mod 4) * 16 < 64" "(a mod 4) * 16 + b div 16 < 64"
    "(b mod 16) * 4 < 64" "(b mod 16) * 4 + c div 64 < 64" "c mod 64 < 64"
  using assms by auto

lemma b64_encode_length: "length (b64_encode s) mod 4 = 0"
  by (induction s rule: b64_encode.induct) simp_all

lemma b64_encode_Nil: "b64_encode s = [] \<longleftrightarrow> s = []"
  by (cases s rule: b64_encode.cases) simp_all

lemma strip_padding_four:
  assumes "length y mod 4 = 0" and "y \<noteq> []"
  shows "strip_padding (c1 # c2 # c3 # c4 # y) = c1 # c2 # c3 # c4 # strip_padding y"
proof -
  from assms(2) have "length y \<noteq> 0" by simp
  with assms(1) have "length y \<ge> 2" by presburger
  then obtain x1 x2 r where r: "rev y = x1 # x2 # r"
    by (cases "rev y"; cases "tl (rev y)") (auto simp: Suc_le_eq dest: arg_cong [where f = length])
  have "rev (rev y) = rev (x1 # x2 # r)" using r by simp
  then have y: "y = rev r @ [x2, x1]" by simp
  have len: "length (c1 # c2 # c3 # c4 # y) mod 4 = 0" using assms(1) by simp
  show ?thesis
    unfolding strip_padding_def using assms(1) len
    by (simp add: y del: length_Cons length_append)
qed

lemma strip_padding_encode:
  assumes "\<forall>c \<in> set s. c < 256"
  shows "strip_padding (b64_encode s) = b64_body s"
  using assms
proof (induction s rule: b64_encode.induct)
  case 1
  show ?case by (simp add: strip_padding_def)
next
  case (2 a)
  then show ?case by (simp add: strip_padding_def)
next
  case (3 a b)
  then have "(b mod 16) * 4 < 64" by auto
  from b64_char_props(3) [OF this] show ?case by (simp add: strip_padding_def)
next
  case (4 a b c bs)
  show ?case
  proof (cases "bs = []")
    case True
    have "c mod 64 < 64" by simp
    from b64_char_props(3) [OF this] True show ?thesis by (simp add: strip_padding_def)
  next
    case False
    then have "b64_encode bs \<noteq> []" by (simp add: b64_encode_Nil)
    from strip_padding_four [OF b64_encode_length this] 4 show ?thesis by simp
  qed
qed

lemma b64_body_chars:
  assumes "\<forall>c \<in> set s. c < 256"
  shows "\<forall>c \<in> set (b64_body s). is_b64_char c"
  using assms
proof (induction s rule: b64_body.induct)
  case 1
  show ?case by simp
next
  case (2 a)
  then show ?case using sextets [of a 0 0] by (simp add: b64_char_props)
next
  case (3 a b)
  then show ?case using sextets [of a b 0] by (simp add: b64_char_props)
next
  case (4 a b c bs)
  then show ?case using sextets [of a b c] by (simp add: b64_char_props)
qed

lemma b64_body_length: "length (b64_body s) mod 4 \<noteq> 1"
  by (induction s rule: b64_body.induct) simp_all

lemma b64_arith:
  assumes "a < 256" "b < 256" "(c::nat) < 256"
  shows "(a div 4) * 4 + ((a mod 4) * 16) div 16 = a"
    "(a div 4) * 4 + ((a mod 4) * 16 + b div 16) div 16 = a"
    "(((a mod 4) * 16 + b div 16) mod 16) * 16 + ((b mod 16) * 4) div 4 = b"
    "(((a mod 4) * 16 + b div 16) mod 16) * 16 + ((b mod 16) * 4 + c div 64) div 4 = b"
    "(((b mod 16) * 4 + c div 64) mod 4) * 64 + c mod 64 = c"
proof -
  have bd: "b div 16 < 16" using assms(2) by simp
  have cd: "c div 64 < 4" using assms(3) by simp
  show "(a div 4) * 4 + ((a mod 4) * 16) div 16 = a" by simp
  show "(a div 4) * 4 + ((a mod 4) * 16 + b div 16) div 16 = a" using bd by simp
  show "(((a mod 4) * 16 + b div 16) mod 16) * 16 + ((b mod 16) * 4) div 4 = b" using bd by simp
  show "(((a mod 4) * 16 + b div 16) mod 16) * 16 + ((b mod 16) * 4 + c div 64) div 4 = b"
    using bd cd by simp
  show "(((b mod 16) * 4 + c div 64) mod 4) * 64 + c mod 64 = c" using cd by simp
qed

lemma b64_decode_body:
  assumes "\<forall>c \<in> set s. c < 256"
  shows "b64_decode (map b64_index (b64_body s)) = s"
  using assms
proof (induction s rule: b64_body.induct)
  case 1
  show ?case by simp
next
  case (2 a)
  then have a: "a < 256" by simp
  have "map b64_index (b64_body [a]) = [a div 4, (a mod 4) * 16]"
    using sextets [OF a a a] by (simp add: b64_char_props)
  then show ?case
    using b64_arith(1) [OF a a a] by (simp only: b64_decode.simps)
next
  case (3 a b)
  then have a: "a < 256" and b: "b < 256" by simp_all
  have "map b64_index (b64_body [a, b]) = [a div 4, (a mod 4) * 16 + b div 16, (b mod 16) * 4]"
    using sextets [OF a b b] by (simp add: b64_char_props)
  then show ?case
    using b64_arith(2,3) [OF a b b] by (simp only: b64_decode.simps)
next
  case (4 a b c bs)
  then have a: "a < 256" and b: "b < 256" and c: "c < 256" by simp_all
  have "map b64_index (b64_body (a # b # c # bs))
      = (a div 4) # ((a mod 4) * 16 + b div 16) # ((b mod 16) * 4 + c div 64) # (c mod 64)
        # map b64_index (b64_body bs)"
    using sextets [OF a b c] by (simp add: b64_char_props)
  moreover have "b64_decode (map b64_index (b64_body bs)) = bs"
    using 4 by simp
  ultimately show ?case
    using b64_arith(2,4,5) [OF a b c] by (simp only: b64_decode.simps)
qed

lemma b64_encode_chars:
  assumes "\<forall>c \<in> set s. c < 256"
  shows "\<forall>c \<in> set (b64_encode s). is_b64_char c \<or> c = 61"
  using assms
proof (induction s rule: b64_encode.induct)
  case 1
  show ?case by simp
next
  case (2 a)
  then show ?case using sextets [of a 0 0] by (simp add: b64_char_props)
next
  case (3 a b)
  then show ?case using sextets [of a b 0] by (simp add: b64_char_props)
next
  case (4 a b c bs)
  then show ?case using sextets [of a b c] by (simp add: b64_char_props)
qed

lemma atob_b64_encode:
  assumes "\<forall>c \<in> set s. c < 256"
  shows "atob (b64_encode s) = Inr s"
proof -
  have "\<not> is_ascii_whitespace c" if "c \<in> set (b64_encode s)" for c
    using b64_encode_chars [OF assms] that
    by (auto simp: is_b64_char_def is_ascii_whitespace_def)
  then have "filter (\<lambda>c. \<not> is_ascii_whitespace c) (b64_encode s) = b64_encode s"
    by (simp add: filter_id_conv)
  then show ?thesis
    using b64_body_chars [OF assms] b64_body_length [of s]
    by (simp add: atob_def strip_padding_encode [OF assms] b64_decode_body [OF assms])
qed

lemma atob_btoa: "btoa s = Inr t \<Longrightarrow> atob t = Inr s"
  by (auto simp: btoa_def atob_b64_encode split: if_splits)

section \<open>JSON round trip of an array of strings\<close>

lemma hex_digit_value:
  assumes "n < 16"
  shows "is_hex_digit (hex_digit n)" "hex_value (hex_digit n) = n"
  using assms by (auto simp: hex_digit_def is_hex_digit_def hex_value_def)

lemma hex4_arith:
  assumes "(c::nat) < 65536"
  shows "((c div 4096 mod 16 * 16 + c div 256 mod 16) * 16 + c div 16 mod 16) * 16 + c mod 16 = c"
proof -
  have q3: "c div 4096 mod 16 = c div 4096" using assms by simp
  have "c div 256 = c div 16 div 16" using div_mult2_eq [of c 16 16] by simp
  then have s2: "c div 256 * 16 + c div 16 mod 16 = c div 16" by simp
  have "c div 4096 = c div 256 div 16" using div_mult2_eq [of c 256 16] by simp
  then have s3: "c div 4096 * 16 + c div 256 mod 16 = c div 256" by simp
  have "((c div 4096 mod 16 * 16 + c div 256 mod 16) * 16 + c div 16 mod 16) * 16 + c mod 16
      = ((c div 4096 * 16 + c div 256 mod 16) * 16 + c div 16 mod 16) * 16 + c mod 16"
    by (simp only: q3)
  also have "\<dots> = (c div 256 * 16 + c div 16 mod 16) * 16 + c mod 16" by (simp only: s3)
  also have "\<dots> = c div 16 * 16 + c mod 16" by (simp only: s2)
  also have "\<dots> = c" by simp
  finally show ?thesis .
qed

lemma hex4_value_hex4:
  assumes "c < 65536"
  shows "hex4_value (hex_digit (c div 4096 mod 16)) (hex_digit (c div 256 mod 16))
           (hex_digit (c div 16 mod 16)) (hex_digit (c mod 16)) = c"
proof -
  have v: "hex_value (hex_digit (c div 4096 mod 16)) = c div 4096 mod 16"
    "hex_value (hex_digit (c div 256 mod 16)) = c div 256 mod 16"
    "hex_value (hex_digit (c div 16 mod 16)) = c div 16 mod 16"
    "hex_value (hex_digit (c mod 16)) = c mod 16"
    by (simp_all add: hex_digit_value)
  show ?thesis
    unfolding hex4_value_def v by (rule hex4_arith [OF assms])
qed

lemma lex_string_unicode_escape:
  assumes "c < 65536"
  shows "lex_string acc ([0x5C, 0x75] @ hex4 c @ rest) = lex_string (c # acc) rest"
proof -
  have d: "is_hex_digit (hex_digit (c div 4096 mod 16))" "is_hex_digit (hex_digit (c div 256 mod 16))"
    "is_hex_digit (hex_digit (c div 16 mod 16))" "is_hex_digit (hex_digit (c mod 16))"
    by (simp_all add: hex_digit_value)
  have "lex_string acc ([0x5C, 0x75] @ hex4 c @ rest)
      = lex_string (hex4_value (hex_digit (c div 4096 mod 16)) (hex_digit (c div 256 mod 16))
           (hex_digit (c div 16 mod 16)) (hex_digit (c mod 16)) # acc) rest"
    using d by (simp add: hex4_def del: mod_div_trivial)
  then show ?thesis
    by (simp only: hex4_value_hex4 [OF assms])
qed
lemma lex_string_escape:
  "lex_string acc (json_escape c @ rest) = lex_string (c # acc) rest"
proof -
  consider "c = 0x8" | "c = 0x9" | "c = 0xA" | "c = 0xC" | "c = 0xD" | "c = 0x22" | "c = 0x5C"
    | "c < 0x20" "c \<noteq> 0x8" "c \<noteq> 0x9" "c \<noteq> 0xA" "c \<noteq> 0xC" "c \<noteq> 0xD"
    | "c \<ge> 0x20" "c \<noteq> 0x22" "c \<noteq> 0x5C" "is_high_surrogate c \<or> is_low_surrogate c"
    | "c \<ge> 0x20" "c \<noteq> 0x22" "c \<noteq> 0x5C" "\<not> (is_high_surrogate c \<or> is_low_surrogate c)"
    by linarith
  then show ?thesis
  proof cases
    case 8
    then have "json_escape c = [0x5C, 0x75] @ hex4 c" by (simp add: json_escape_def)
    moreover have "c < 65536" using 8(1) by simp
    ultimately show ?thesis by (simp only: append_assoc lex_string_unicode_escape)
  next
    case 9
    then have "json_escape c = [0x5C, 0x75] @ hex4 c"
      by (auto simp: json_escape_def is_high_surrogate_def is_low_surrogate_def)
    moreover have "c < 65536"
      using 9(4) by (auto simp: is_high_surrogate_def is_low_surrogate_def)
    ultimately show ?thesis by (simp only: append_assoc lex_string_unicode_escape)
  next
    case 10
    then have "json_escape c = [c]" by (simp add: json_escape_def)
    with 10 show ?thesis by simp
  qed (simp_all add: json_escape_def unescape_def)
qed

lemma lex_string_pair:
  assumes "is_high_surrogate c" and "is_low_surrogate d"
  shows "lex_string acc (c # d # rest) = lex_string (d # c # acc) rest"
  using assms by (simp add: is_high_surrogate_def is_low_surrogate_def)

lemma lex_string_quote_units:
  "lex_string acc (quote_units s @ rest) = lex_string (rev s @ acc) rest"
proof (induction s arbitrary: acc rule: quote_units.induct)
  case 1
  show ?case by simp
next
  case (2 c)
  show ?case by (simp add: lex_string_escape)
next
  case (3 c d cs)
  show ?case
  proof (cases "is_high_surrogate c \<and> is_low_surrogate d")
    case True
    then have "lex_string acc (quote_units (c # d # cs) @ rest)
        = lex_string (d # c # acc) (quote_units cs @ rest)"
      using lex_string_pair [of c d acc "quote_units cs @ rest"] by simp
    also have "\<dots> = lex_string (rev cs @ d # c # acc) rest"
      using 3(1) [OF True] by simp
    finally show ?thesis by simp
  next
    case False
    then have "lex_string acc (quote_units (c # d # cs) @ rest)
        = lex_string (c # acc) (quote_units (d # cs) @ rest)"
      by (simp only: quote_units.simps if_False append_assoc lex_string_escape)
    also have "\<dots> = lex_string (rev (d # cs) @ c # acc) rest"
      using 3(2) [OF False] by simp
    finally show ?thesis by simp
  qed
qed

lemma tokenize_QuoteJSONString:
  "tokenize (QuoteJSONString s @ rest)
           = map_option (Cons (T_Value (JString s))) (tokenize rest)"
proof -
  have "lex_string [] (quote_units s @ 0x22 # rest) = Some (s, rest)"
    using lex_string_quote_units [of "[]" s "0x22 # rest"] by simp
  then show ?thesis
    by (simp add: QuoteJSONString_def is_json_whitespace_def)
qed

lemma tokenize_elements:
  "tokenize (join (js '','') (map QuoteJSONString ss) @ js '']'')
     = Some (string_tokens ss @ [T_RBracket])"
proof (induction ss rule: string_tokens.induct)
  case 1
  show ?case by (simp add: is_json_whitespace_def)
next
  case (2 s)
  show ?case by (simp add: tokenize_QuoteJSONString is_json_whitespace_def)
next
  case (3 s t ss)
  then show ?case
    by (simp add: tokenize_QuoteJSONString is_json_whitespace_def)
qed

lemma tokenize_string_array:
  "tokenize (JSON_stringify (JArray (map JString ss)))
     = Some (T_LBracket # string_tokens ss @ [T_RBracket])"
proof -
  have "JSON_stringify \<circ> JString = QuoteJSONString" by (rule ext) simp
  then show ?thesis
    using tokenize_elements [of ss] by (simp add: is_json_whitespace_def)
qed

lemma parse_more_elements:
  "parse_tokens ExpCommaOrClose [ArrayFrame (JString s # vs)]
       (concat (map (\<lambda>t. [T_Comma, T_Value (JString t)]) ss) @ [T_RBracket])
     = Some (JArray (rev vs @ map JString (s # ss)))"
proof (induction ss arbitrary: s vs)
  case Nil
  show ?case by simp
next
  case (Cons t ss)
  show ?case using Cons [of t "JString s # vs"] by simp
qed

lemma string_tokens_Cons:
  "string_tokens (s # ss) = T_Value (JString s) # concat (map (\<lambda>t. [T_Comma, T_Value (JString t)]) ss)"
  by (induction ss arbitrary: s) simp_all

lemma parse_string_array:
  "parse_tokens ExpValue [] (T_LBracket # string_tokens ss @ [T_RBracket])
     = Some (JArray (map JString ss))"
proof (cases ss)
  case Nil
  then show ?thesis by simp
next
  case (Cons s ss')
  show ?thesis
    using parse_more_elements [of s "[]" ss']
    by (simp add: Cons string_tokens_Cons)
qed

lemma JSON_parse_string_array:
  "JSON_parse (JSON_stringify (JArray (map JString ss))) = Some (JArray (map JString ss))"
  by (simp only: JSON_parse_def tokenize_string_array option.case parse_string_array)

lemma string_items_strings: "string_items (map JString ss) = Some ss"
  by (induction ss) simp_all

lemma string_items_Some: "string_items vs = Some ss \<Longrightarrow> vs = map JString ss"
  by (induction vs arbitrary: ss rule: string_items.induct) auto

section \<open>A Cookie header with the one cookie\<close>

lemma split_no_separator: "sep \<notin> set s \<Longrightarrow> split sep s = [s]"
  by (induction s) auto

lemma split_at_separator: "sep \<notin> set a \<Longrightarrow> split sep (a @ sep # b) = a # split sep b"
  by (induction a) auto

lemma trim_unchanged:
  assumes "s \<noteq> []" and "\<not> is_white_space (hd s)" and "\<not> is_white_space (last s)"
  shows "trim s = s"
proof -
  from assms(1,2) have "dropWhile is_white_space s = s" by (cases s) auto
  moreover from assms(1,3) have "dropWhile is_white_space (rev s) = rev s"
    by (cases "rev s") (auto simp: last_rev [symmetric] hd_rev)
  ultimately show ?thesis by (simp add: trim_def)
qed

lemma COOKIE_NAME_chars: "\<forall>c \<in> set (COOKIE_NAME @ js ''=''). c \<noteq> 0x3B \<and> \<not> is_white_space c"
  by (simp add: COOKIE_NAME_def is_white_space_def)

lemma cookie_header_value:
  assumes sig: "\<forall>c \<in> set signatureHex. is_hex_digit c"
    and b64: "\<forall>c \<in> set base64Payload. is_b64_char c \<or> c = 61"
  shows "getApprovedClientsFromCookie
           (Some (COOKIE_NAME @ js ''='' @ signatureHex @ js ''.'' @ base64Payload)) secret
         = (case atob base64Payload of
              Inl e \<Rightarrow> Inl e
            | Inr payload \<Rightarrow>
                (case importKey secret of
                   Inl e \<Rightarrow> Inl e
                 | Inr key \<Rightarrow>
                     if \<not> verifySignature key signatureHex payload then Inr None
                     else
                       (case JSON_parse payload of
                          None \<Rightarrow> Inr None
                        | Some (JArray approvedClients) \<Rightarrow> Inr (string_items approvedClients)
                        | Some _ \<Rightarrow> Inr None)))"
proof -
  define v where "v = signatureHex @ js ''.'' @ base64Payload"
  define h where "h = COOKIE_NAME @ js ''='' @ signatureHex @ js ''.'' @ base64Payload"
  define p where "p = COOKIE_NAME @ js ''=''"
  have hpv: "h = p @ v" by (simp add: h_def p_def v_def)
  have sigc: "\<forall>c \<in> set signatureHex. c \<noteq> 0x3B \<and> c \<noteq> 0x2E \<and> \<not> is_white_space c"
    using sig by (auto simp: is_hex_digit_def is_white_space_def)
  have b64c: "\<forall>c \<in> set base64Payload. c \<noteq> 0x3B \<and> c \<noteq> 0x2E \<and> \<not> is_white_space c"
    using b64 by (auto simp: is_b64_char_def is_white_space_def)
  have vc: "\<forall>c \<in> set v. c \<noteq> 0x3B \<and> \<not> is_white_space c"
    using sigc b64c by (auto simp: v_def is_white_space_def)
  have pc: "\<forall>c \<in> set p. c \<noteq> 0x3B \<and> \<not> is_white_space c"
    using COOKIE_NAME_chars by (simp add: p_def)
  have hc: "\<forall>c \<in> set h. c \<noteq> 0x3B \<and> \<not> is_white_space c"
    using pc vc by (auto simp: hpv)
  have ne: "h \<noteq> []" by (simp add: h_def)
  have h1: "split 0x3B h = [h]"
    using hc by (intro split_no_separator) blast
  have h2: "trim h = h"
  proof (rule trim_unchanged [OF ne])
    show "\<not> is_white_space (hd h)" using hc hd_in_set [OF ne] by blast
    show "\<not> is_white_space (last h)" using hc last_in_set [OF ne] by blast
  qed
  have h3: "startsWith h p"
    by (simp add: startsWith_def hpv)
  have h4: "drop (Suc (length COOKIE_NAME)) h = v"
    by (simp add: hpv p_def)
  have "0x2E \<notin> set signatureHex" "0x2E \<notin> set base64Payload"
    using sigc b64c by blast+
  then have h5: "split 0x2E v = [signatureHex, base64Payload]"
    by (simp add: v_def split_at_separator split_no_separator)
  show ?thesis
    unfolding getApprovedClientsFromCookie_def h_def [symmetric] p_def [symmetric]
    by (simp add: ne h1 h2 h3 h4 h5)
qed

section \<open>The signed cookie\<close>

lemma importKey_nonempty: "secret \<noteq> [] \<Longrightarrow> importKey secret = Inr (TextEncoder_encode secret)"
  by (simp add: importKey_def)

lemma importKey_Inr: "importKey secret = Inr key \<Longrightarrow> secret \<noteq> [] \<and> key = TextEncoder_encode secret"
  by (auto simp: importKey_def split: if_splits)

text \<open>What getApprovedClientsFromCookie makes of the cookie value that signs a payload
  (the JSON text of string list) and carries a base64 text decoding to it.\<close>

lemma decode_signed_payload:
  assumes "secret \<noteq> []"
    and "\<forall>c \<in> set base64Payload. is_b64_char c \<or> c = 61"
    and "atob base64Payload = Inr (JSON_stringify (JArray (map JString approved)))"
  shows "getApprovedClientsFromCookie
           (Some (COOKIE_NAME @ js ''=''
                  @ signData (TextEncoder_encode secret)
                      (JSON_stringify (JArray (map JString approved)))
                  @ js ''.'' @ base64Payload)) secret
         = Inr (Some approved)"
  by (simp only: cookie_header_value [OF signData_hex assms(2)] assms(3) sum.case
      importKey_nonempty [OF assms(1)] verifySignature_signData not_True_eq_False if_False
      JSON_parse_string_array option.case jsvalue.case string_items_strings)

lemma decode_encoded:
  assumes "secret \<noteq> []"
    and "btoa (JSON_stringify (JArray (map JString approved))) = Inr b64"
  shows "getApprovedClientsFromCookie
           (Some (COOKIE_NAME @ js ''=''
                  @ signData (TextEncoder_encode secret)
                      (JSON_stringify (JArray (map JString approved)))
                  @ js ''.'' @ b64)) secret
         = Inr (Some approved)"
proof -
  let ?payload = "JSON_stringify (JArray (map JString approved))"
  from assms(2) have latin: "\<forall>c \<in> set ?payload. c < 256" and b64: "b64 = b64_encode ?payload"
    by (auto simp: btoa_def split: if_splits)
  show ?thesis
    unfolding b64
    by (rule decode_signed_payload [OF assms(1) b64_encode_chars [OF latin]
          atob_b64_encode [OF latin]])
qed

lemma json_abc: "JSON_stringify (JArray (map JString [js ''abc''])) = js ''[\"abc\"]''"
  by (simp add: QuoteJSONString_def json_escape_def is_high_surrogate_def is_low_surrogate_def)

lemma atob_flipped: "atob (js ''WyJhYmMiXR=='') = Inr (js ''[\"abc\"]'')"
  by (simp add: atob_def strip_padding_def is_ascii_whitespace_def is_b64_char_def b64_index_def)

lemma btoa_abc: "btoa (js ''[\"abc\"]'') = Inr (js ''WyJhYmMiXQ=='')"
  by (simp add: btoa_def b64_char_def)

text \<open>What HMAC makes of a key shorter than its block: the key is filled up with zero
  bytes, so a zero byte at its end changes nothing.\<close>

lemma hmac_sha256_zero_byte:
  assumes "length key < 64"
  shows "hmac_sha256 (key @ [0]) msg = hmac_sha256 key msg"
proof -
  from assms obtain n where n: "64 - length key = Suc n" "63 - length key = n"
    by (cases "64 - length key") auto
  have k: "(key @ [0]) @ replicate (64 - length (key @ [0])) 0 = key @ replicate (64 - length key) 0"
    by (simp add: n)
  from assms have "\<not> length (key @ [0]) > 64" "\<not> length key > 64" by simp_all
  then show ?thesis by (simp only: hmac_sha256_def Let_def if_False k)
qed

lemma encode_secret_s: "TextEncoder_encode (js ''s'' @ [0]) = TextEncoder_encode (js ''s'') @ [0]"
  "length (TextEncoder_encode (js ''s'')) < 64"
  by (simp_all add: TextEncoder_encode_def utf8_bytes_def is_high_surrogate_def is_low_surrogate_def)

lemma signData_zero_byte:
  "signData (TextEncoder_encode (js ''s'' @ [0])) data = signData (TextEncoder_encode (js ''s'')) data"
  by (simp only: signData_def encode_secret_s(1) hmac_sha256_zero_byte [OF encode_secret_s(2)])

text \<open>
  C1, as the claim states it, fails: in the signed cookie of the list \<open>["abc"]\<close> under the
  secret \<open>s\<close> the payload part is \<open>WyJhYmMiXQ==\<close>; with its character \<open>Q\<close> changed to
  \<open>R\<close> the cookie is still decoded to that list (only bits that base64 discards have
  changed). And the unchanged cookie is decoded to that list under another secret as well,
  \<open>s\<close> followed by U+0000, which is the same HMAC key.
\<close>

theorem flipped_cookie_accepted:
  "btoa (js ''[\"abc\"]'') = Inr (js ''WyJhYmMiXQ=='')
   \<and> getApprovedClientsFromCookie
       (Some (COOKIE_NAME @ js ''='' @ signData (TextEncoder_encode (js ''s'')) (js ''[\"abc\"]'')
              @ js ''.'' @ js ''WyJhYmMiXQ=='')) (js ''s'')
     = Inr (Some [js ''abc''])
   \<and> getApprovedClientsFromCookie
       (Some (COOKIE_NAME @ js ''='' @ signData (TextEncoder_encode (js ''s'')) (js ''[\"abc\"]'')
              @ js ''.'' @ js ''WyJhYmMiXR=='')) (js ''s'')
     = Inr (Some [js ''abc''])
   \<and> getApprovedClientsFromCookie
       (Some (COOKIE_NAME @ js ''='' @ signData (TextEncoder_encode (js ''s'')) (js ''[\"abc\"]'')
              @ js ''.'' @ js ''WyJhYmMiXQ=='')) (js ''s'' @ [0])
     = Inr (Some [js ''abc''])"
proof -
  have s: "js ''s'' \<noteq> []" by simp
  have z: "js ''s'' @ [0] \<noteq> []" by simp
  have c: "\<forall>c \<in> set (js ''WyJhYmMiXR==''). is_b64_char c \<or> c = 61"
    by (simp add: is_b64_char_def)
  have a: "atob (js ''WyJhYmMiXR=='') = Inr (JSON_stringify (JArray (map JString [js ''abc''])))"
    by (simp only: json_abc atob_flipped)
  have b: "btoa (JSON_stringify (JArray (map JString [js ''abc'']))) = Inr (js ''WyJhYmMiXQ=='')"
    by (simp only: json_abc btoa_abc)
  from decode_signed_payload [OF s c a] decode_encoded [OF s b] decode_encoded [OF z b] btoa_abc
  show ?thesis by (simp only: json_abc signData_zero_byte simp_thms)
qed

text \<open>
  C1 amended: getApprovedClientsFromCookie returns a list of clients exactly when the
  header has a cookie of the name whose value has two parts around one \<open>.\<close>, the second
  part decodes (forgiving base64) to a payload, the secret is not empty, the bytes read
  from the first part, two characters at a time through \<open>parseInt(_, 16)\<close>, are the
  HMAC-SHA256 of the UTF-8 bytes of the payload under the key of the secret, and the
  payload parses as the JSON array of exactly these strings; in every other case in which
  it returns, it returns \<open>null\<close>. So for such a cookie value and a secret that is not
  empty it returns \<open>null\<close> whenever the bytes read from the first part
  differ from the HMAC-SHA256 of the decoded payload under the key of the given secret,
  whoever signed the cookie, and whenever the payload is not the JSON text of an array of
  strings. Of the two parts only the bytes read from the first and the text decoded from
  the second count: a changed character that leaves both as they were (the unused low bits
  of the last base64 character, the case of a hexadecimal digit) is not detected.
\<close>

theorem getApprovedClientsFromCookie_fail_closed:
  "(getApprovedClientsFromCookie cookieHeader secret = Inr (Some approved) \<longleftrightarrow>
     (\<exists>header targetCookie signatureHex base64Payload payload.
        cookieHeader = Some header \<and> header \<noteq> []
        \<and> find (\<lambda>c. startsWith c (COOKIE_NAME @ js ''='')) (map trim (split 0x3B header))
            = Some targetCookie
        \<and> split 0x2E (drop (length COOKIE_NAME + 1) targetCookie) = [signatureHex, base64Payload]
        \<and> atob base64Payload = Inr payload
        \<and> secret \<noteq> []
        \<and> match_pairs signatureHex \<noteq> []
        \<and> map (\<lambda>byte. ToUint8 (parseInt16 byte)) (match_pairs signatureHex)
            = hmac_sha256 (TextEncoder_encode secret) (TextEncoder_encode payload)
        \<and> JSON_parse payload = Some (JArray (map JString approved))))
   \<and> (cookieHeader = Some hdr \<and> hdr \<noteq> []
        \<and> find (\<lambda>c. startsWith c (COOKIE_NAME @ js ''='')) (map trim (split 0x3B hdr))
            = Some target
        \<and> split 0x2E (drop (length COOKIE_NAME + 1) target) = [sigHex, b64]
        \<and> atob b64 = Inr text
        \<and> secret \<noteq> []
        \<and> (map (\<lambda>byte. ToUint8 (parseInt16 byte)) (match_pairs sigHex)
              \<noteq> hmac_sha256 (TextEncoder_encode secret) (TextEncoder_encode text)
            \<or> (\<forall>clients. JSON_parse text \<noteq> Some (JArray (map JString clients))))
      \<longrightarrow> getApprovedClientsFromCookie cookieHeader secret = Inr None)"
  (is "(?lhs \<longleftrightarrow> ?rhs) \<and> (?located \<longrightarrow> ?null)")
proof (intro conjI impI)
  show "?lhs \<longleftrightarrow> ?rhs"
  proof
    assume ?lhs
    then obtain header where header: "cookieHeader = Some header" "header \<noteq> []"
      by (auto simp: getApprovedClientsFromCookie_def split: option.splits if_splits)
    from \<open>?lhs\<close> header obtain targetCookie where
      target: "find (\<lambda>c. startsWith c (COOKIE_NAME @ js ''='')) (map trim (split 0x3B header))
              = Some targetCookie"
      by (auto simp: getApprovedClientsFromCookie_def split: option.splits)
    from \<open>?lhs\<close> header target obtain signatureHex base64Payload where
      parts: "split 0x2E (drop (length COOKIE_NAME + 1) targetCookie) = [signatureHex, base64Payload]"
      by (auto simp: getApprovedClientsFromCookie_def split: list.splits)
    from \<open>?lhs\<close> header target parts obtain payload key where
      payload: "atob base64Payload = Inr payload" and key: "importKey secret = Inr key"
      by (auto simp: getApprovedClientsFromCookie_def split: sum.splits)
    from \<open>?lhs\<close> header target parts payload key obtain items where
      valid: "verifySignature key signatureHex payload"
      and parsed: "JSON_parse payload = Some (JArray items)"
      and items: "string_items items = Some approved"
      by (auto simp: getApprovedClientsFromCookie_def
          split: if_splits option.splits jsvalue.splits)
    from key have secret: "secret \<noteq> []" "key = TextEncoder_encode secret"
      using importKey_Inr by blast+
    from valid secret have
      "match_pairs signatureHex \<noteq> []"
      "map (\<lambda>byte. ToUint8 (parseInt16 byte)) (match_pairs signatureHex)
         = hmac_sha256 (TextEncoder_encode secret) (TextEncoder_encode payload)"
      by (auto simp: verifySignature_def split: list.splits)
    with header target parts payload secret parsed string_items_Some [OF items]
    show ?rhs by blast
  next
    assume ?rhs
    then obtain header targetCookie signatureHex base64Payload payload where
      h: "cookieHeader = Some header" "header \<noteq> []"
        "find (\<lambda>c. startsWith c (COOKIE_NAME @ js ''='')) (map trim (split 0x3B header))
              = Some targetCookie"
        "split 0x2E (drop (length COOKIE_NAME + 1) targetCookie) = [signatureHex, base64Payload]"
        "atob base64Payload = Inr payload"
        "secret \<noteq> []"
        "match_pairs signatureHex \<noteq> []"
        "map (\<lambda>byte. ToUint8 (parseInt16 byte)) (match_pairs signatureHex)
              = hmac_sha256 (TextEncoder_encode secret) (TextEncoder_encode payload)"
        "JSON_parse payload = Some (JArray (map JString approved))"
      by blast
    from h(7,8) have "verifySignature (TextEncoder_encode secret) signatureHex payload"
      by (auto simp: verifySignature_def split: list.splits)
    with h show ?lhs
      by (simp add: getApprovedClientsFromCookie_def importKey_nonempty string_items_strings)
  qed
next
  assume l: ?located
  then have eq: "getApprovedClientsFromCookie cookieHeader secret
      = (if \<not> verifySignature (TextEncoder_encode secret) sigHex text then Inr None
         else (case JSON_parse text of
                 None \<Rightarrow> Inr None
               | Some (JArray approvedClients) \<Rightarrow> Inr (string_items approvedClients)
               | Some _ \<Rightarrow> Inr None))"
    by (simp add: getApprovedClientsFromCookie_def importKey_nonempty)
  from l consider
    (mac) "map (\<lambda>byte. ToUint8 (parseInt16 byte)) (match_pairs sigHex)
              \<noteq> hmac_sha256 (TextEncoder_encode secret) (TextEncoder_encode text)"
    | (shape) "\<forall>clients. JSON_parse text \<noteq> Some (JArray (map JString clients))"
    by blast
  then show ?null
  proof cases
    case mac
    then have "\<not> verifySignature (TextEncoder_encode secret) sigHex text"
      by (auto simp: verifySignature_def split: list.splits)
    with eq show ?thesis by simp
  next
    case shape
    have "string_items items = None" if "JSON_parse text = Some (JArray items)" for items
    proof (cases "string_items items")
      case (Some clients)
      from string_items_Some [OF Some] that shape show ?thesis by blast
    qed simp
    with eq show ?thesis
      by (auto split: option.splits jsvalue.splits)
  qed
qed

theorem getApprovedClientsFromCookie_fail_closed_witness:
  "(\<exists>header targetCookie signatureHex base64Payload payload.
        Some (COOKIE_NAME @ js ''='' @ signData (TextEncoder_encode (js ''s'')) (js ''[\"abc\"]'')
              @ js ''.'' @ js ''WyJhYmMiXQ=='') = Some header \<and> header \<noteq> []
        \<and> find (\<lambda>c. startsWith c (COOKIE_NAME @ js ''='')) (map trim (split 0x3B header))
            = Some targetCookie
        \<and> split 0x2E (drop (length COOKIE_NAME + 1) targetCookie) = [signatureHex, base64Payload]
        \<and> atob base64Payload = Inr payload
        \<and> js ''s'' \<noteq> []
        \<and> match_pairs signatureHex \<noteq> []
        \<and> map (\<lambda>byte. ToUint8 (parseInt16 byte)) (match_pairs signatureHex)
            = hmac_sha256 (TextEncoder_encode (js ''s'')) (TextEncoder_encode payload)
        \<and> JSON_parse payload = Some (JArray (map JString [js ''abc''])))
   \<and> getApprovedClientsFromCookie (Some (js ''mcp-approved-clients=00.WyJhYmMiXQ=='')) (js ''s'')
       = Inr None"
proof -
  have s: "js ''s'' \<noteq> []" by simp
  have b: "btoa (JSON_stringify (JArray (map JString [js ''abc'']))) = Inr (js ''WyJhYmMiXQ=='')"
    by (simp only: json_abc btoa_abc)
  have d: "getApprovedClientsFromCookie
       (Some (COOKIE_NAME @ js ''='' @ signData (TextEncoder_encode (js ''s'')) (js ''[\"abc\"]'')
              @ js ''.'' @ js ''WyJhYmMiXQ=='')) (js ''s'') = Inr (Some [js ''abc''])"
    using decode_encoded [OF s b] by (simp only: json_abc)
  let ?h = "js ''mcp-approved-clients=00.WyJhYmMiXQ==''"
  let ?mac = "hmac_sha256 (TextEncoder_encode (js ''s'')) (TextEncoder_encode (js ''[\"abc\"]''))"
  have m: "map (\<lambda>byte. ToUint8 (parseInt16 byte)) (match_pairs (js ''00'')) \<noteq> ?mac"
  proof
    assume "map (\<lambda>byte. ToUint8 (parseInt16 byte)) (match_pairs (js ''00'')) = ?mac"
    then have "length (map (\<lambda>byte. ToUint8 (parseInt16 byte)) (match_pairs (js ''00'')))
        = length ?mac"
      by (rule arg_cong)
    then show False
      by (simp add: hmac_sha256_length is_line_terminator_def)
  qed
  have a: "atob (js ''WyJhYmMiXQ=='') = Inr (js ''[\"abc\"]'')"
    by (simp add: atob_def strip_padding_def is_ascii_whitespace_def is_b64_char_def b64_index_def)
  have l: "Some ?h = Some ?h \<and> ?h \<noteq> []
        \<and> find (\<lambda>c. startsWith c (COOKIE_NAME @ js ''='')) (map trim (split 0x3B ?h)) = Some ?h
        \<and> split 0x2E (drop (length COOKIE_NAME + 1) ?h) = [js ''00'', js ''WyJhYmMiXQ=='']
        \<and> atob (js ''WyJhYmMiXQ=='') = Inr (js ''[\"abc\"]'')
        \<and> js ''s'' \<noteq> []
        \<and> (map (\<lambda>byte. ToUint8 (parseInt16 byte)) (match_pairs (js ''00'')) \<noteq> ?mac
            \<or> (\<forall>clients. JSON_parse (js ''[\"abc\"]'') \<noteq> Some (JArray (map JString clients))))"
    using m a by (simp add: COOKIE_NAME_def startsWith_def trim_def is_white_space_def)
  from getApprovedClientsFromCookie_fail_closed [THEN conjunct1, THEN iffD1, OF d]
    getApprovedClientsFromCookie_fail_closed [THEN conjunct2, rule_format, OF l]
  show ?thesis by (rule conjI)
qed


lemma parse_euro_state:
  "JSON_parse (js ''{\"oauthReqInfo\":{\"clientId\":\"'' @ [0x20AC] @ js ''\"}}'')
     = Some (JObject [(js ''oauthReqInfo'', JObject [(js ''clientId'', JString [0x20AC])])])"
  by (simp add: JSON_parse_def is_json_whitespace_def is_hex_digit_def is_digit_def
      unescape_def define_property_def is_array_index_def)

text \<open>
  C2, as the claim states it, fails: for the list with the one client id U+20AC there is
  no cookie value, \<open>btoa\<close> throws on the JSON text and parseRedirectApproval with it.
\<close>

theorem non_latin1_client_not_encoded:
  "btoa (JSON_stringify (JArray (map JString [[0x20AC]]))) = Inl InvalidCharacterError
   \<and> parseRedirectApproval
       \<lparr>req_url = js ''https://mcp.example/authorize'', req_cookie = None,
        req_formData = Inr [(js ''state'',
                              FormString (js ''{\"oauthReqInfo\":{\"clientId\":\"'' @ [0x20AC]
                                          @ js ''\"}}'')),
                            (js ''approved'', FormString (js ''true''))]\<rparr>
       (js ''s'')
     = Inl InvalidCharacterError"
  using parse_euro_state
  by (simp add: parseRedirectApproval_def formData_get_def entry_truthy_def
      entry_text_def getApprovedClientsFromCookie_def array_includes_def importKey_def btoa_def
      QuoteJSONString_def json_escape_def is_high_surrogate_def is_low_surrogate_def Let_def)

text \<open>
  C2 amended: for every non-empty secret and every list of strings whose JSON text
  \<open>btoa\<close> accepts (no code unit above U+00FF), decoding with the secret the cookie value
  \<open>hex(HMAC-SHA256(key, JSON(L))) + "." + base64(JSON(L))\<close> gives the list itself.
\<close>

theorem signed_cookie_roundtrip:
  assumes "secret \<noteq> []"
    and "btoa (JSON_stringify (JArray (map JString approved))) = Inr b64"
  shows "getApprovedClientsFromCookie
           (Some (COOKIE_NAME @ js ''=''
                  @ signData (TextEncoder_encode secret)
                      (JSON_stringify (JArray (map JString approved)))
                  @ js ''.'' @ b64)) secret
         = Inr (Some approved)"
  using assms by (rule decode_encoded)

theorem signed_cookie_roundtrip_witness:
  "getApprovedClientsFromCookie
     (Some (COOKIE_NAME @ js ''=''
            @ signData (TextEncoder_encode (js ''s''))
                (JSON_stringify (JArray (map JString [js ''abc''])))
            @ js ''.'' @ js ''WyJhYmMiXQ=='')) (js ''s'')
   = Inr (Some [js ''abc''])"
proof -
  have s: "js ''s'' \<noteq> []" by simp
  have b: "btoa (JSON_stringify (JArray (map JString [js ''abc'']))) = Inr (js ''WyJhYmMiXQ=='')"
    by (simp only: json_abc btoa_abc)
  from signed_cookie_roundtrip [OF s b] show ?thesis .
qed


lemma approved_list:
  "(if array_includes existing (JString clientId) then map JString existing
    else map JString existing @ [JString clientId])
   = map JString (if clientId \<in> set existing then existing else existing @ [clientId])"
  by (simp add: array_includes_def)

lemma parseRedirectApproval_result:
  assumes "parseRedirectApproval request cookieSecret = Inr result"
    and "req_formData request = Inr formData"
    and "JSON_parse (entry_text (formData_get formData (js ''state''))) = Some st"
    and "get_property st (js ''oauthReqInfo'') = Inr oauthReqInfo"
    and "get_property oauthReqInfo (js ''clientId'') = Inr (JString clientId)"
    and "getApprovedClientsFromCookie (req_cookie request) cookieSecret = Inr existing"
    and "L = (case existing of None \<Rightarrow> [] | Some cs \<Rightarrow> cs)"
    and "approved = (if clientId \<in> set L then L else L @ [clientId])"
  shows "cookieSecret \<noteq> []"
    and "btoa (JSON_stringify (JArray (map JString approved)))
           = Inr (b64_encode (JSON_stringify (JArray (map JString approved))))"
    and "result = \<lparr>res_state = st,
           res_headers = [(js ''Set-Cookie'',
             set_cookie_value (signData (TextEncoder_encode cookieSecret)
                                 (JSON_stringify (JArray (map JString approved)))
                               @ js ''.''
                               @ b64_encode (JSON_stringify (JArray (map JString approved)))))]\<rparr>"
proof -
  let ?payload = "JSON_stringify (JArray (map JString approved))"
  have nd: "formData_get formData (js ''approved'') = Some (FormString (js ''true''))"
    "entry_truthy (formData_get formData (js ''state''))"
    using assms(1,2) by (auto simp: parseRedirectApproval_def Let_def split: if_splits)
  have L: "(case existing of None \<Rightarrow> [] | Some cs \<Rightarrow> cs) = L" by (simp add: assms(7))
  have ap: "(if array_includes L (JString clientId) then map JString L
             else map JString L @ [JString clientId]) = map JString approved"
    by (simp add: approved_list assms(8))
  have ap': "approved = (if clientId \<in> set L then L else L @ [clientId])" by (rule assms(8))
  have "parseRedirectApproval request cookieSecret
          = (case importKey cookieSecret of
               Inl e \<Rightarrow> Inl e
             | Inr key \<Rightarrow>
                 (case btoa ?payload of
                    Inl e \<Rightarrow> Inl e
                  | Inr b64 \<Rightarrow>
                      Inr \<lparr>res_state = st,
                           res_headers = [(js ''Set-Cookie'',
                             set_cookie_value (signData key ?payload @ js ''.'' @ b64))]\<rparr>))"
  proof (cases "clientId \<in> set L")
    case True
    then have a: "approved = L" by (simp add: ap')
    show ?thesis
      unfolding a using True nd assms(2,3,4,5,6)
      by (simp add: parseRedirectApproval_def Let_def L array_includes_def
          del: JSON_stringify.simps)
  next
    case False
    then have a: "map JString approved = map JString L @ [JString clientId]" by (simp add: ap')
    show ?thesis
      unfolding a using False nd assms(2,3,4,5,6)
      by (simp add: parseRedirectApproval_def Let_def L array_includes_def
          del: JSON_stringify.simps)
  qed
  with assms(1) have ok: "(case importKey cookieSecret of
               Inl e \<Rightarrow> Inl e
             | Inr key \<Rightarrow>
                 (case btoa ?payload of
                    Inl e \<Rightarrow> Inl e
                  | Inr b64 \<Rightarrow>
                      Inr \<lparr>res_state = st,
                           res_headers = [(js ''Set-Cookie'',
                             set_cookie_value (signData key ?payload @ js ''.'' @ b64))]\<rparr>))
            = Inr result"
    by simp
  then obtain key where key: "importKey cookieSecret = Inr key"
    by (cases "importKey cookieSecret") auto
  with ok obtain b64 where b64: "btoa ?payload = Inr b64"
    by (cases "btoa ?payload") auto
  from key show "cookieSecret \<noteq> []" using importKey_Inr by blast
  from b64 show enc: "btoa ?payload = Inr (b64_encode ?payload)"
    by (auto simp: btoa_def split: if_splits)
  from ok key enc importKey_Inr [OF key]
  show "result = \<lparr>res_state = st,
           res_headers = [(js ''Set-Cookie'',
             set_cookie_value (signData (TextEncoder_encode cookieSecret) ?payload
                               @ js ''.'' @ b64_encode ?payload))]\<rparr>"
    by simp
qed

text \<open>
  C4 amended: when parseRedirectApproval returns, the cookie decoded to the list \<open>L\<close>
  (the empty list for \<open>null\<close>) and the state carries the string \<open>clientId\<close>, the one header
  returned is Set-Cookie with the signed value of \<open>L\<close> if \<open>clientId\<close> is in \<open>L\<close> and of \<open>L\<close> with
  \<open>clientId\<close> appended otherwise; that value decodes to this list, which is distinct if \<open>L\<close>
  is and keeps every element of \<open>L\<close>; and a request that brings the value back makes
  clientIdAlreadyApproved true for \<open>clientId\<close>, provided \<open>clientId\<close> is not the empty string.
\<close>

theorem parseRedirectApproval_appends:
  assumes "parseRedirectApproval request cookieSecret = Inr result"
    and "req_formData request = Inr formData"
    and "JSON_parse (entry_text (formData_get formData (js ''state''))) = Some st"
    and "get_property st (js ''oauthReqInfo'') = Inr oauthReqInfo"
    and "get_property oauthReqInfo (js ''clientId'') = Inr (JString clientId)"
    and "getApprovedClientsFromCookie (req_cookie request) cookieSecret = Inr existing"
  shows "\<exists>L approved cookieValue.
           L = (case existing of None \<Rightarrow> [] | Some cs \<Rightarrow> cs)
         \<and> approved = (if clientId \<in> set L then L else L @ [clientId])
         \<and> cookieValue = signData (TextEncoder_encode cookieSecret)
                            (JSON_stringify (JArray (map JString approved)))
                          @ js ''.'' @ b64_encode (JSON_stringify (JArray (map JString approved)))
         \<and> res_state result = st
         \<and> res_headers result = [(js ''Set-Cookie'', set_cookie_value cookieValue)]
         \<and> getApprovedClientsFromCookie (Some (COOKIE_NAME @ js ''='' @ cookieValue)) cookieSecret
             = Inr (Some approved)
         \<and> (distinct L \<longrightarrow> distinct approved)
         \<and> set L \<subseteq> set approved
         \<and> (clientId \<noteq> [] \<longrightarrow>
              (\<forall>visit. req_cookie visit = Some (COOKIE_NAME @ js ''='' @ cookieValue)
                 \<longrightarrow> clientIdAlreadyApproved visit clientId cookieSecret = Inr True))"
proof -
  define L where "L = (case existing of None \<Rightarrow> [] | Some cs \<Rightarrow> cs)"
  define approved where "approved = (if clientId \<in> set L then L else L @ [clientId])"
  define cookieValue where
    "cookieValue = signData (TextEncoder_encode cookieSecret)
                            (JSON_stringify (JArray (map JString approved)))
                          @ js ''.'' @ b64_encode (JSON_stringify (JArray (map JString approved)))"
  note r = parseRedirectApproval_result [OF assms L_def approved_def]
  note r1 = r(1) and r2 = r(2) and r3 = r(3)
  have res: "res_state result = st"
    "res_headers result = [(js ''Set-Cookie'', set_cookie_value cookieValue)]"
    by (simp_all add: r3 cookieValue_def)
  have dec: "getApprovedClientsFromCookie (Some (COOKIE_NAME @ js ''='' @ cookieValue)) cookieSecret
             = Inr (Some approved)"
    unfolding cookieValue_def using decode_encoded [OF r1 r2] by simp
  have mem: "clientId \<in> set approved" by (simp add: approved_def)
  have next_visit: "clientIdAlreadyApproved visit clientId cookieSecret = Inr True"
    if "clientId \<noteq> []" "req_cookie visit = Some (COOKIE_NAME @ js ''='' @ cookieValue)" for visit
    using that dec mem by (simp add: clientIdAlreadyApproved_def)
  have "distinct L \<longrightarrow> distinct approved" "set L \<subseteq> set approved"
    by (auto simp: approved_def)
  with res dec next_visit show ?thesis
    unfolding L_def [symmetric] approved_def [symmetric] cookieValue_def [symmetric]
    by (intro exI [of _ L] exI [of _ approved] exI [of _ cookieValue])
       (simp add: L_def approved_def cookieValue_def)
qed

lemma parse_abc_state:
  "JSON_parse (js ''{\"oauthReqInfo\":{\"clientId\":\"abc\"}}'')
     = Some (JObject [(js ''oauthReqInfo'', JObject [(js ''clientId'', JString (js ''abc''))])])"
  by (simp add: JSON_parse_def is_json_whitespace_def is_hex_digit_def is_digit_def
      unescape_def define_property_def is_array_index_def)

lemma parse_empty_client_state:
  "JSON_parse (js ''{\"oauthReqInfo\":{\"clientId\":\"\"}}'')
     = Some (JObject [(js ''oauthReqInfo'', JObject [(js ''clientId'', JString [])])])"
  by (simp add: JSON_parse_def is_json_whitespace_def is_hex_digit_def is_digit_def
      unescape_def define_property_def is_array_index_def)

text \<open>
  C4, as the claim states it, fails: with the empty string as client id the submission
  succeeds and signs the list \<open>[""]\<close>, but clientIdAlreadyApproved answers \<open>false\<close> for the
  empty client id whatever the cookie holds.
\<close>

theorem empty_client_never_approved:
  "parseRedirectApproval
     \<lparr>req_url = js ''https://mcp.example/authorize'', req_cookie = None,
      req_formData = Inr [(js ''state'', FormString (js ''{\"oauthReqInfo\":{\"clientId\":\"\"}}'')),
                          (js ''approved'', FormString (js ''true''))]\<rparr>
     (js ''s'')
   = Inr \<lparr>res_state = JObject [(js ''oauthReqInfo'', JObject [(js ''clientId'', JString [])])],
          res_headers = [(js ''Set-Cookie'',
             set_cookie_value (signData (TextEncoder_encode (js ''s'')) (js ''[\"\"]'')
                               @ js ''.'' @ js ''WyIiXQ==''))]\<rparr>
   \<and> clientIdAlreadyApproved
       \<lparr>req_url = js ''https://mcp.example/authorize'',
        req_cookie = Some (COOKIE_NAME @ js ''=''
                           @ signData (TextEncoder_encode (js ''s'')) (js ''[\"\"]'')
                           @ js ''.'' @ js ''WyIiXQ==''),
        req_formData = Inl TypeError\<rparr>
       [] (js ''s'')
     = Inr False"
  using parse_empty_client_state
  by (simp add: parseRedirectApproval_def formData_get_def entry_truthy_def
      entry_text_def getApprovedClientsFromCookie_def array_includes_def importKey_def btoa_def
      b64_char_def QuoteJSONString_def Let_def clientIdAlreadyApproved_def)

theorem parseRedirectApproval_appends_witness:
  "\<exists>cookieValue.
      res_headers
        \<lparr>res_state = JObject [(js ''oauthReqInfo'', JObject [(js ''clientId'', JString (js ''abc''))])],
         res_headers = [(js ''Set-Cookie'',
            set_cookie_value (signData (TextEncoder_encode (js ''s'')) (js ''[\"abc\"]'')
                              @ js ''.'' @ js ''WyJhYmMiXQ==''))]\<rparr>
      = [(js ''Set-Cookie'', set_cookie_value cookieValue)]
    \<and> getApprovedClientsFromCookie (Some (COOKIE_NAME @ js ''='' @ cookieValue)) (js ''s'')
        = Inr (Some [js ''abc''])
    \<and> clientIdAlreadyApproved
        \<lparr>req_url = js ''https://mcp.example/authorize'',
         req_cookie = Some (COOKIE_NAME @ js ''='' @ cookieValue),
         req_formData = Inl TypeError\<rparr>
        (js ''abc'') (js ''s'')
      = Inr True"
proof -
  let ?fd = "[(js ''state'', FormString (js ''{\"oauthReqInfo\":{\"clientId\":\"abc\"}}'')),
              (js ''approved'', FormString (js ''true''))]"
  let ?req = "\<lparr>req_url = js ''https://mcp.example/authorize'', req_cookie = None,
      req_formData = Inr ?fd\<rparr>"
  let ?info = "JObject [(js ''clientId'', JString (js ''abc''))]"
  let ?st = "JObject [(js ''oauthReqInfo'', ?info)]"
  let ?res = "\<lparr>res_state = ?st,
         res_headers = [(js ''Set-Cookie'',
            set_cookie_value (signData (TextEncoder_encode (js ''s'')) (js ''[\"abc\"]'')
                              @ js ''.'' @ js ''WyJhYmMiXQ==''))]\<rparr>"
  have h1: "parseRedirectApproval ?req (js ''s'') = Inr ?res"
    using parse_abc_state
    by (simp add: parseRedirectApproval_def formData_get_def entry_truthy_def
        entry_text_def getApprovedClientsFromCookie_def array_includes_def importKey_def btoa_def
        b64_char_def QuoteJSONString_def json_escape_def is_high_surrogate_def
        is_low_surrogate_def Let_def)
  have h2: "req_formData ?req = Inr ?fd" by simp
  have h3: "JSON_parse (entry_text (formData_get ?fd (js ''state''))) = Some ?st"
    using parse_abc_state by (simp add: formData_get_def entry_text_def)
  have h4: "get_property ?st (js ''oauthReqInfo'') = Inr ?info" by simp
  have h5: "get_property ?info (js ''clientId'') = Inr (JString (js ''abc''))" by simp
  have h6: "getApprovedClientsFromCookie (req_cookie ?req) (js ''s'') = Inr None"
    by (simp add: getApprovedClientsFromCookie_def)
  have ne: "js ''abc'' \<noteq> []" by simp
  from parseRedirectApproval_appends [OF h1 h2 h3 h4 h5 h6] ne
  show ?thesis by (auto simp del: list.map)
qed

end
